theory Spec2Isabelle
  imports Complex_Main "HOL-Library.Sublist" "HOL-Library.Word"
begin

section \<open>Numbers and strings\<close>

text \<open>
  Python floats are modelled as exact rationals: every arithmetic step of the source is
  carried out without binary rounding. Only the explicit calls of \<open>round(x, n)\<close> round.
  Strings are lists of ASCII characters; \<open>str.lower\<close>, \<open>str.upper\<close> and \<open>str.strip\<close> are
  modelled on that range.
\<close>

datatype py_error =
  IndexError | KeyError | ZeroDivisionError | TypeError | DuplicateKeyError | NotFound

definition round_half_even :: "rat \<Rightarrow> int" where
  "round_half_even x =
     (let f = \<lfloor>x\<rfloor>; d = x - of_int f
      in if d < 1 / 2 then f
         else if 1 / 2 < d then f + 1
         else if even f then f else f + 1)"

definition py_round :: "nat \<Rightarrow> rat \<Rightarrow> rat" where
  "py_round ndigits x = of_int (round_half_even (x * 10 ^ ndigits)) / 10 ^ ndigits"

definition lower_char :: "char \<Rightarrow> char" where
  "lower_char c =
     (let n = (of_char c :: nat) in if 65 \<le> n \<and> n \<le> 90 then char_of (n + 32) else c)"

definition upper_char :: "char \<Rightarrow> char" where
  "upper_char c =
     (let n = (of_char c :: nat) in if 97 \<le> n \<and> n \<le> 122 then char_of (n - 32) else c)"

definition lower :: "string \<Rightarrow> string" where
  "lower s = map lower_char s"

definition upper :: "string \<Rightarrow> string" where
  "upper s = map upper_char s"

section \<open>Documents\<close>

text \<open>
  A field that the schema allows to hold \<open>None\<close> is a \<open>field\<close>: the key can be absent,
  hold \<open>None\<close>, or hold a value. Every other key a function reads with \<open>.get\<close> is an
  \<open>option\<close>, \<open>None\<close> meaning that the key is absent.
\<close>

datatype 'a field = Missing | Null | Val 'a

datatype confirmed = CStr string | CBool bool

record risk_event =
  re_id :: "string option"
  re_company_id :: "string option"
  risk_type :: "string option"
  affected_entities :: "string list option"
  affected_supply_chain_nodes :: "string list option"
  severity :: "string option"
  is_confirmed :: "confirmed option"
  time_horizon :: "string option"
  reasoning :: "string option"
  re_risk_score :: "rat option"
  re_severity_band :: "string option"

record supplier =
  s_id :: string
  s_company_id :: "string option"
  s_name :: "string option"
  s_country :: "string option"
  supplies :: "string list option"
  supply_volume_pct :: "rat option"
  status :: "string option"
  approved_vendor :: "bool option"
  pre_qualified :: "bool option"
  is_single_source :: "bool option"
  esg_score :: "rat field"
  financial_health_score :: "rat field"
  max_capacity :: "rat field"
  switching_cost_estimate :: "rat field"
  lead_time_weeks :: "rat option"

record company =
  c_id :: string
  company_name :: "string option"
  material_criticality :: "(string \<rightharpoonup> rat) option"
  inventory_days :: "(string \<rightharpoonup> int) option"
  suppliers :: "supplier list option"

section \<open>Risk scoring (risk\_engine/scoring.py)\<close>

record components =
  probability :: rat
  impact :: rat
  urgency :: rat
  mitigation :: rat

record score_result =
  risk_score :: rat
  severity_band :: string
  comps :: components

definition score_to_band :: "rat \<Rightarrow> string" where
  "score_to_band score =
     (if score \<ge> 10 then ''critical''
      else if score \<ge> 6 then ''high''
      else if score \<ge> 3 then ''medium''
      else ''low'')"

definition available_status :: "string \<Rightarrow> bool" where
  "available_status st \<longleftrightarrow> st \<in> set [''active'', ''alternate'', ''pre_qualified'']"

fun count_loop :: "string \<Rightarrow> supplier list \<Rightarrow> int \<Rightarrow> int" where
  "count_loop material [] count = count"
| "count_loop material (s # ss) count =
     (let supplies_list = (case supplies s of None \<Rightarrow> [] | Some xs \<Rightarrow> xs);
          st = (case status s of None \<Rightarrow> ''active'' | Some v \<Rightarrow> v)
      in count_loop material ss
           (if lower material \<in> set (map lower supplies_list)
            then (if available_status st then count + 1 else count)
            else count))"

definition count_alternate_suppliers :: "string \<Rightarrow> company \<Rightarrow> int" where
  "count_alternate_suppliers material company_profile =
     (case suppliers company_profile of
        None \<Rightarrow> 0
      | Some ss \<Rightarrow> max 0 (count_loop material ss 0 - 1))"

definition prob_map :: "string \<Rightarrow> rat" where
  "prob_map sev =
     (if sev = ''critical'' then 95 / 100
      else if sev = ''high'' then 80 / 100
      else if sev = ''medium'' then 55 / 100
      else if sev = ''low'' then 25 / 100
      else 55 / 100)"

definition urgency_map :: "string \<Rightarrow> rat" where
  "urgency_map h =
     (if h = ''immediate'' then 2
      else if h = ''days'' then 3 / 2
      else if h = ''weeks'' then 1
      else if h = ''months'' then 1 / 2
      else 1)"

definition calc_probability :: "risk_event \<Rightarrow> rat" where
  "calc_probability risk_data =
     (let p = prob_map (case severity risk_data of None \<Rightarrow> ''medium'' | Some s \<Rightarrow> s);
          conf = (case is_confirmed risk_data of None \<Rightarrow> CStr ''uncertain'' | Some c \<Rightarrow> c)
      in if conf = CStr ''uncertain'' then p * (7 / 10)
         else if conf = CStr ''false'' \<or> conf = CBool False then p * (3 / 10)
         else p)"

definition calc_mitigation :: "string \<Rightarrow> supplier \<Rightarrow> company \<Rightarrow> rat" where
  "calc_mitigation material supplier company_profile =
     (let num_alternates = count_alternate_suppliers material company_profile;
          m = 1 + min (of_int num_alternates * (2 / 10)) 1
      in if (case is_single_source supplier of None \<Rightarrow> False | Some b \<Rightarrow> b) then 1 / 2 else m)"

definition calculate_risk_score ::
  "risk_event \<Rightarrow> supplier \<Rightarrow> company \<Rightarrow> py_error + score_result" where
  "calculate_risk_score risk_data supplier company_profile =
     (let prob = calc_probability risk_data;
          dependency_ratio = (case supply_volume_pct supplier of None \<Rightarrow> 50 | Some v \<Rightarrow> v) / 100
      in case (case supplies supplier of None \<Rightarrow> [''unknown''] | Some xs \<Rightarrow> xs) of
           [] \<Rightarrow> Inl IndexError
         | material # _ \<Rightarrow>
             (let crit = (case (case material_criticality company_profile of
                                  None \<Rightarrow> Map.empty | Some m \<Rightarrow> m) material of
                            None \<Rightarrow> 5 | Some c \<Rightarrow> c);
                  inv_days = (case (case inventory_days company_profile of
                                      None \<Rightarrow> Map.empty | Some m \<Rightarrow> m) material of
                                None \<Rightarrow> 0 | Some d \<Rightarrow> d);
                  denom = 1 + of_int inv_days / 30
              in if denom = 0 then Inl ZeroDivisionError
                 else
                   (let buffer_score = 1 / denom;
                        imp0 = dependency_ratio * (crit / 10) * buffer_score * 10;
                        imp = max 1 (min 10 imp0);
                        urg = urgency_map (case time_horizon risk_data of
                                             None \<Rightarrow> ''weeks'' | Some h \<Rightarrow> h);
                        mit = calc_mitigation material supplier company_profile;
                        score = (prob * imp * urg) / mit
                    in Inr \<lparr>risk_score = py_round 2 score,
                            severity_band = score_to_band score,
                            comps = \<lparr>probability = py_round 3 prob,
                                     impact = py_round 2 imp,
                                     urgency = urg,
                                     mitigation = mit\<rparr>\<rparr>)))"


subsection \<open>Scenario data\<close>

definition scenario_event :: "string \<Rightarrow> confirmed \<Rightarrow> string \<Rightarrow> risk_event" where
  "scenario_event sev conf horizon =
     \<lparr>re_id = Some ''re-1'', re_company_id = Some ''company_nayara_energy'',
      risk_type = Some ''operational'', affected_entities = Some [],
      affected_supply_chain_nodes = Some [''Gulf LPG''],
      severity = Some sev, is_confirmed = Some conf, time_horizon = Some horizon,
      reasoning = Some ''Terminal outage'', re_risk_score = Some 0,
      re_severity_band = Some ''low''\<rparr>"

definition scenario_supplier :: "rat \<Rightarrow> bool \<Rightarrow> supplier" where
  "scenario_supplier pct single =
     \<lparr>s_id = ''sup-1'', s_company_id = Some ''company_nayara_energy'',
      s_name = Some ''Gulf LPG'', s_country = Some ''UAE'', supplies = Some [''LPG''],
      supply_volume_pct = Some pct, status = Some ''active'', approved_vendor = Some True,
      pre_qualified = Some False, is_single_source = Some single, esg_score = Val 70,
      financial_health_score = Val 7, max_capacity = Val 100,
      switching_cost_estimate = Val 5, lead_time_weeks = Some 4\<rparr>"

definition scenario_company :: "int \<Rightarrow> company" where
  "scenario_company days =
     \<lparr>c_id = ''company_nayara_energy'', company_name = Some ''Nayara Energy'',
      material_criticality = Some [''LPG'' \<mapsto> 5],
      inventory_days = Some [''LPG'' \<mapsto> days],
      suppliers = None\<rparr>"

section \<open>Risk propagation (risk\_engine/graph\_propagation.py)\<close>

text \<open>
  A networkx \<open>DiGraph\<close> is a table of node attributes and, per node, the ordered table of
  its successors with the attributes of each edge. Only the attributes that
  \<open>propagate_risk\<close> reads are kept. A lookup of a name that is not in a table raises
  \<open>KeyError\<close>, as the dictionary would.
\<close>

record node_data =
  nd_name :: "string option"
  nd_is_single_source :: "bool option"

record edge_data =
  weight :: "rat option"

record digraph =
  nodes :: "(string \<times> node_data) list"
  adj :: "(string \<times> (string \<times> edge_data) list) list"

text \<open>
  The state of the loop of \<open>propagate_risk\<close>: the result map, the FIFO queue and the
  visited set.
\<close>

record pstate =
  propagated :: "string \<rightharpoonup> rat"
  queue :: "(string \<times> rat) list"
  visited :: "string set"

text \<open>
  \<open>G.successors(node)\<close> with the data of each edge, in the order of the adjacency table.
  It raises for a name that is not a node of the graph.
\<close>

definition successors :: "digraph \<Rightarrow> string \<Rightarrow> py_error + (string \<times> edge_data) list" where
  "successors G n =
     (case map_of (nodes G) n of
        None \<Rightarrow> Inl KeyError
      | Some _ \<Rightarrow> Inr (case map_of (adj G) n of None \<Rightarrow> [] | Some es \<Rightarrow> es))"

text \<open>
  The body of the \<open>for\<close> loop over the successors, for one successor: the edge weight
  (default 0.5), the vulnerability of the successor, the propagated score, and the update
  of the map and the queue when the score is above the threshold and improves the entry.
\<close>

definition dep_weight :: "edge_data \<Rightarrow> rat" where
  "dep_weight edge = (case weight edge of None \<Rightarrow> 1 / 2 | Some w \<Rightarrow> w)"

definition vulnerability :: "node_data \<Rightarrow> rat" where
  "vulnerability successor_data =
     (if (case nd_is_single_source successor_data of None \<Rightarrow> False | Some b \<Rightarrow> b)
      then 3 / 2 else 1)"

definition propagated_score :: "rat \<Rightarrow> edge_data \<Rightarrow> node_data \<Rightarrow> rat" where
  "propagated_score score edge successor_data =
     score * dep_weight edge * (1 / 2 + vulnerability successor_data * (1 / 2))"

definition relax ::
  "digraph \<Rightarrow> rat \<Rightarrow> rat \<Rightarrow> string \<times> edge_data \<Rightarrow> pstate \<Rightarrow> py_error + pstate" where
  "relax G threshold score se st =
     (case se of (successor, edge) \<Rightarrow>
        (case map_of (nodes G) successor of
           None \<Rightarrow> Inl KeyError
         | Some successor_data \<Rightarrow>
             (let ps = propagated_score score edge successor_data
              in if ps > threshold
                 then (if (case propagated st successor of
                             None \<Rightarrow> True | Some old \<Rightarrow> old < ps)
                       then Inr (st\<lparr>propagated := (propagated st)(successor \<mapsto> py_round 2 ps),
                                    queue := queue st @ [(successor, ps)]\<rparr>)
                       else Inr st)
                 else Inr st)))"

fun expand ::
  "digraph \<Rightarrow> rat \<Rightarrow> rat \<Rightarrow> (string \<times> edge_data) list \<Rightarrow> pstate \<Rightarrow> py_error + pstate" where
  "expand G threshold score [] st = Inr st"
| "expand G threshold score (se # ses) st =
     (case relax G threshold score se st of
        Inl e \<Rightarrow> Inl e
      | Inr st' \<Rightarrow> expand G threshold score ses st')"

text \<open>
  One iteration of the \<open>while\<close> loop: pop the head of the queue, skip it when it has
  been visited, otherwise mark it and run the \<open>for\<close> loop over its successors.
\<close>

definition loop_body :: "digraph \<Rightarrow> rat \<Rightarrow> pstate \<Rightarrow> py_error + pstate" where
  "loop_body G threshold st =
     (case queue st of
        [] \<Rightarrow> Inr st
      | (node, score) # rest \<Rightarrow>
          (if node \<in> visited st then Inr (st\<lparr>queue := rest\<rparr>)
           else case successors G node of
                  Inl e \<Rightarrow> Inl e
                | Inr ses \<Rightarrow>
                    expand G threshold score ses
                      (st\<lparr>queue := rest, visited := insert node (visited st)\<rparr>)))"

text \<open>
  The \<open>while queue\<close> loop. Not returning is the value \<open>None\<close>; an exception is
  \<open>Some (Inl e)\<close>.
\<close>

partial_function (option) bfs_loop ::
  "digraph \<Rightarrow> rat \<Rightarrow> pstate \<Rightarrow> (py_error + (string \<rightharpoonup> rat)) option" where
  "bfs_loop G threshold st =
     (if queue st = [] then Some (Inr (propagated st))
      else case loop_body G threshold st of
             Inl e \<Rightarrow> Some (Inl e)
           | Inr st' \<Rightarrow> bfs_loop G threshold st')"

declare bfs_loop.simps [code]

text \<open>
  \<open>propagate_risk\<close> reads \<open>G.nodes[risk_node_id]\<close> for its first log line, which raises
  \<open>KeyError\<close> when the origin is not a node of the graph; then it runs the loop from the
  initial state.
\<close>

definition initial_state :: "string \<Rightarrow> rat \<Rightarrow> pstate" where
  "initial_state risk_node_id initial_score =
     \<lparr>propagated = [risk_node_id \<mapsto> initial_score],
      queue = [(risk_node_id, initial_score)],
      visited = {}\<rparr>"

definition propagate_risk ::
  "digraph \<Rightarrow> string \<Rightarrow> rat \<Rightarrow> rat \<Rightarrow> (py_error + (string \<rightharpoonup> rat)) option" where
  "propagate_risk G risk_node_id initial_score threshold =
     (case map_of (nodes G) risk_node_id of
        None \<Rightarrow> Some (Inl KeyError)
      | Some _ \<Rightarrow> bfs_loop G threshold (initial_state risk_node_id initial_score))"

text \<open>The state after \<open>k\<close> iterations of the loop body.\<close>

fun run_iter :: "digraph \<Rightarrow> rat \<Rightarrow> nat \<Rightarrow> pstate \<Rightarrow> py_error + pstate" where
  "run_iter G threshold 0 st = Inr st"
| "run_iter G threshold (Suc k) st =
     (case loop_body G threshold st of
        Inl e \<Rightarrow> Inl e
      | Inr st' \<Rightarrow> run_iter G threshold k st')"

text \<open>
  Readers for one entry: of the map after \<open>k\<close> iterations, and of the returned map.
\<close>

definition entry_after :: "digraph \<Rightarrow> rat \<Rightarrow> nat \<Rightarrow> string \<Rightarrow> rat \<Rightarrow> string \<Rightarrow> rat option" where
  "entry_after G threshold k risk_node_id initial_score n =
     (case run_iter G threshold k (initial_state risk_node_id initial_score) of
        Inl e \<Rightarrow> None
      | Inr st \<Rightarrow> propagated st n)"

definition lookup_result ::
  "(py_error + (string \<rightharpoonup> rat)) option \<Rightarrow> string \<Rightarrow> rat option" where
  "lookup_result r n = (case r of Some (Inr m) \<Rightarrow> m n | _ \<Rightarrow> None)"

subsection \<open>Predicates on graphs and result maps\<close>

definition node_set :: "digraph \<Rightarrow> string set" where
  "node_set G = fst ` set (nodes G)"

text \<open>
  The edges that the loop follows: \<open>v\<close> is a successor of \<open>u\<close>. A node \<open>n\<close> is reachable
  from the origin when \<open>(origin, n)\<close> is in the reflexive transitive closure, and the origin
  lies on a cycle when \<open>(origin, origin)\<close> is in the transitive closure.
\<close>

definition edge_rel :: "digraph \<Rightarrow> (string \<times> string) set" where
  "edge_rel G = {(u, v). \<exists>ses e. successors G u = Inr ses \<and> (v, e) \<in> set ses}"

text \<open>
  The scores that propagation can carry along the paths of the graph: the origin has the
  initial score, and a node \<open>u\<close> reached with the score \<open>s\<close> passes
  \<open>s * weight * (0.5 + 0.5 * vulnerability)\<close> to a successor when that score is above the
  threshold.
\<close>

inductive path_score :: "digraph \<Rightarrow> string \<Rightarrow> rat \<Rightarrow> rat \<Rightarrow> string \<Rightarrow> rat \<Rightarrow> bool"
  for G :: digraph and origin :: string and s0 :: rat and \<theta> :: rat where
  start: "path_score G origin s0 \<theta> origin s0"
| step: "path_score G origin s0 \<theta> u s \<Longrightarrow> successors G u = Inr ses \<Longrightarrow> (v, e) \<in> set ses \<Longrightarrow>
         map_of (nodes G) v = Some nd \<Longrightarrow> \<theta> < propagated_score s e nd \<Longrightarrow>
         path_score G origin s0 \<theta> v (propagated_score s e nd)"

text \<open>
  Every edge that leaves a node reachable from the origin has a factor
  \<open>weight * (0.5 + 0.5 * vulnerability)\<close> in [0, 1].
\<close>

definition attenuating_from :: "digraph \<Rightarrow> string \<Rightarrow> bool" where
  "attenuating_from G origin \<longleftrightarrow>
     (\<forall>u ses v e nd. (origin, u) \<in> (edge_rel G)\<^sup>* \<longrightarrow> successors G u = Inr ses \<longrightarrow>
        (v, e) \<in> set ses \<longrightarrow> map_of (nodes G) v = Some nd \<longrightarrow>
        0 \<le> propagated_score 1 e nd \<and> propagated_score 1 e nd \<le> 1)"

text \<open>Every entry of the queue carries a score of a path to its node.\<close>

definition queue_ok :: "digraph \<Rightarrow> string \<Rightarrow> rat \<Rightarrow> rat \<Rightarrow> pstate \<Rightarrow> bool" where
  "queue_ok G origin s0 \<theta> st \<longleftrightarrow>
     (\<forall>(n, x) \<in> set (queue st). path_score G origin s0 \<theta> n x)"

definition entries_le :: "(string \<rightharpoonup> rat) \<Rightarrow> (string \<rightharpoonup> rat) \<Rightarrow> bool" where
  "entries_le p p' \<longleftrightarrow> (\<forall>k v. p k = Some v \<longrightarrow> (\<exists>v'. p' k = Some v' \<and> v \<le> v'))"

definition rounded :: "(string \<rightharpoonup> rat) \<Rightarrow> bool" where
  "rounded p \<longleftrightarrow> (\<forall>k v. p k = Some v \<longrightarrow> py_round 2 v = v)"

definition growing :: "(string \<rightharpoonup> rat) \<Rightarrow> pstate \<Rightarrow> bool" where
  "growing p0 s \<longleftrightarrow> rounded (propagated s) \<and> entries_le p0 (propagated s)"

subsection \<open>Example graphs\<close>

definition scenario_E :: digraph where
  "scenario_E =
     \<lparr>nodes = [(''C'', \<lparr>nd_name = Some ''Company'', nd_is_single_source = None\<rparr>),
               (''S1'', \<lparr>nd_name = Some ''Supplier'', nd_is_single_source = Some True\<rparr>),
               (''U'', \<lparr>nd_name = Some ''Upstream'', nd_is_single_source = None\<rparr>)],
      adj = [(''C'', []),
             (''S1'', [(''C'', \<lparr>weight = Some (6 / 10)\<rparr>)]),
             (''U'', [(''S1'', \<lparr>weight = Some 1\<rparr>)])]\<rparr>"


definition pair_graph :: "bool \<Rightarrow> bool \<Rightarrow> rat \<Rightarrow> rat option \<Rightarrow> digraph" where
  "pair_graph single_o single_a w back =
     \<lparr>nodes = [(''O'', \<lparr>nd_name = Some ''Origin'', nd_is_single_source = Some single_o\<rparr>),
               (''A'', \<lparr>nd_name = Some ''Dependent'', nd_is_single_source = Some single_a\<rparr>)],
      adj = [(''O'', [(''A'', \<lparr>weight = Some w\<rparr>)]),
             (''A'', (case back of None \<Rightarrow> [] | Some b \<Rightarrow> [(''O'', \<lparr>weight = Some b\<rparr>)]))]\<rparr>"

section \<open>Alternate suppliers (recommender/supplier\_finder.py)\<close>

text \<open>
  The scored candidate that \<open>score_alternate_supplier\<close> returns, with its per-factor
  breakdown.
\<close>

record score_breakdown =
  geographic_diversity :: rat
  capacity :: rat
  relationship :: rat
  esg :: rat
  financial :: rat
  switching_cost :: rat
  lead_time :: rat

record alternate =
  alt_supplier_id :: string
  alt_name :: string
  alt_score :: rat
  alt_lead_time_weeks :: rat
  alt_approved_vendor :: bool
  alt_country :: string
  alt_capacity :: "rat field"
  alt_esg_score :: "rat field"
  alt_breakdown :: score_breakdown

text \<open>
  \<open>candidate.get(key, default)\<close> used as a number: a stored \<open>None\<close> makes the
  arithmetic raise \<open>TypeError\<close>. A flag read with \<open>.get(key, False)\<close> is tested for
  truth.
\<close>

definition get_num :: "rat field \<Rightarrow> rat \<Rightarrow> py_error + rat" where
  "get_num f dflt = (case f of Missing \<Rightarrow> Inr dflt | Null \<Rightarrow> Inl TypeError | Val v \<Rightarrow> Inr v)"

definition truthy :: "bool option \<Rightarrow> bool" where
  "truthy b = (case b of None \<Rightarrow> False | Some v \<Rightarrow> v)"

text \<open>
  The seven weighted factors, in the order of the source. The divisions by
  \<open>required_volume\<close> and by \<open>1 + lead_time_weeks / 4\<close> raise on zero; \<open>candidate['name']\<close>
  and \<open>candidate['country']\<close> raise on a missing key.
\<close>

definition score_alternate_supplier ::
  "supplier \<Rightarrow> supplier \<Rightarrow> rat \<Rightarrow> py_error + alternate" where
  "score_alternate_supplier candidate disrupted required_volume =
     (let geo_score = (if s_country candidate \<noteq> s_country disrupted then 1 else 3 / 10)
      in case get_num (max_capacity candidate) 0 of Inl e \<Rightarrow> Inl e | Inr candidate_capacity \<Rightarrow>
         if candidate_capacity > 0 \<and> required_volume = 0 then Inl ZeroDivisionError
         else
           (let cap_score = (if candidate_capacity > 0
                             then min (candidate_capacity / required_volume) 1 else 1 / 2);
                rel_score = (if truthy (approved_vendor candidate) then 1
                             else if truthy (pre_qualified candidate) then 8 / 10
                             else 4 / 10)
            in case get_num (esg_score candidate) 50 of Inl e \<Rightarrow> Inl e | Inr esg_raw \<Rightarrow>
               case get_num (financial_health_score candidate) 5 of Inl e \<Rightarrow> Inl e | Inr fin_raw \<Rightarrow>
               case get_num (switching_cost_estimate candidate) 5 of Inl e \<Rightarrow> Inl e | Inr sw_cost \<Rightarrow>
                 (let esg_sc = esg_raw / 100;
                      financial_score = fin_raw / 10;
                      switch_score = 1 - sw_cost / 10;
                      ltw = (case lead_time_weeks candidate of None \<Rightarrow> 8 | Some w \<Rightarrow> w)
                  in if 1 + ltw / 4 = 0 then Inl ZeroDivisionError
                     else
                       (let lead_score = 1 / (1 + ltw / 4);
                            final_score =
                              (geo_score * (20 / 100) + cap_score * (25 / 100)
                               + rel_score * (20 / 100) + esg_sc * (10 / 100)
                               + financial_score * (10 / 100) + switch_score * (5 / 100)
                               + lead_score * (10 / 100)) * 10
                        in case s_name candidate of None \<Rightarrow> Inl KeyError | Some nm \<Rightarrow>
                           case s_country candidate of None \<Rightarrow> Inl KeyError | Some ctry \<Rightarrow>
                             Inr \<lparr>alt_supplier_id = s_id candidate,
                                  alt_name = nm,
                                  alt_score = py_round 2 final_score,
                                  alt_lead_time_weeks = ltw,
                                  alt_approved_vendor = truthy (approved_vendor candidate),
                                  alt_country = ctry,
                                  alt_capacity = max_capacity candidate,
                                  alt_esg_score = esg_score candidate,
                                  alt_breakdown =
                                    \<lparr>geographic_diversity = py_round 2 geo_score,
                                     capacity = py_round 2 cap_score,
                                     relationship = py_round 2 rel_score,
                                     esg = py_round 2 esg_sc,
                                     financial = py_round 2 financial_score,
                                     switching_cost = py_round 2 switch_score,
                                     lead_time = py_round 2 lead_score\<rparr>\<rparr>))))"

text \<open>
  The scoring loop of \<open>find_alternates\<close>: a candidate whose scoring raises is skipped.
\<close>

fun score_candidates :: "supplier list \<Rightarrow> supplier \<Rightarrow> rat \<Rightarrow> alternate list" where
  "score_candidates [] disrupted required_volume = []"
| "score_candidates (candidate # candidates) disrupted required_volume =
     (case score_alternate_supplier candidate disrupted required_volume of
        Inl e \<Rightarrow> score_candidates candidates disrupted required_volume
      | Inr scored \<Rightarrow> scored # score_candidates candidates disrupted required_volume)"

text \<open>
  \<open>list.sort(key=..., reverse=True)\<close> is stable: it reverses the list, sorts it in
  ascending order with a stable sort, and reverses the result. \<open>xs[:n]\<close> drops from the
  end for a negative \<open>n\<close>.
\<close>

definition sort_reverse :: "('a \<Rightarrow> rat) \<Rightarrow> 'a list \<Rightarrow> 'a list" where
  "sort_reverse key xs = rev (sort_key key (rev xs))"

definition slice_to :: "'a list \<Rightarrow> int \<Rightarrow> 'a list" where
  "slice_to xs n = (if 0 \<le> n then take (nat n) xs else take (length xs - nat (- n)) xs)"

section \<open>The document store\<close>

text \<open>
  The collections of the database, each a list of documents in natural order. Time
  stamps are left out of the documents.
\<close>

record article =
  event_id :: "string option"
  headline :: "string option"
  body :: "string option"
  raw_relevance_score :: "rat option"
  processed :: "bool option"
  risk_extracted :: "bool option"

record alert =
  al_risk_event_id :: string
  al_company_id :: string
  al_severity_band :: string
  al_risk_score :: rat
  al_title :: string
  al_description :: string
  al_affected_supplier :: string
  al_affected_material :: string
  al_recommendations :: "alternate list"
  al_recommendation_text :: "string option"
  al_is_acknowledged :: bool
  al_notification_sent :: bool

record db =
  db_companies :: "company list"
  db_suppliers :: "supplier list"
  db_articles :: "article list"
  db_risk_events :: "risk_event list"
  db_alerts :: "alert list"

subsection \<open>Finding alternates\<close>

text \<open>
  The query of \<open>find_alternates\<close>: same material, another id, an available status, the
  same company.
\<close>

definition candidate_query :: "db \<Rightarrow> string \<Rightarrow> string \<Rightarrow> string option \<Rightarrow> supplier list" where
  "candidate_query db material disrupted_supplier_id company_id =
     filter (\<lambda>c. (case supplies c of None \<Rightarrow> False | Some xs \<Rightarrow> material \<in> set xs)
                 \<and> s_id c \<noteq> disrupted_supplier_id
                 \<and> (case status c of None \<Rightarrow> False | Some st \<Rightarrow> available_status st)
                 \<and> s_company_id c = company_id) (db_suppliers db)"

text \<open>
  \<open>find_alternates\<close>: the disrupted supplier is looked up by id; its first material is
  read (\<open>IndexError\<close> on an empty list) and its name is logged (\<open>KeyError\<close> when absent);
  the candidates are scored, sorted by score in descending order and cut to
  \<open>max_results\<close>.
\<close>

definition find_alternates :: "string \<Rightarrow> db \<Rightarrow> int \<Rightarrow> py_error + alternate list" where
  "find_alternates disrupted_supplier_id db max_results =
     (case find (\<lambda>s. s_id s = disrupted_supplier_id) (db_suppliers db) of
        None \<Rightarrow> Inr []
      | Some disrupted \<Rightarrow>
          (case (case supplies disrupted of None \<Rightarrow> [''unknown''] | Some xs \<Rightarrow> xs) of
             [] \<Rightarrow> Inl IndexError
           | material # _ \<Rightarrow>
               (let required_volume =
                      (case supply_volume_pct disrupted of None \<Rightarrow> 50 | Some v \<Rightarrow> v);
                    company_id = s_company_id disrupted
                in if s_name disrupted = None then Inl KeyError
                   else
                     (let candidates =
                            candidate_query db material disrupted_supplier_id company_id
                      in if candidates = [] then Inr []
                         else Inr (slice_to
                                (sort_reverse alt_score
                                   (score_candidates candidates disrupted required_volume))
                                max_results)))))"

text \<open>
  The list of scored candidates before the sort, in the order of the query, and a reader
  for the name, score and lead time of each entry of a result.
\<close>

definition scored_candidates :: "string \<Rightarrow> db \<Rightarrow> alternate list" where
  "scored_candidates disrupted_supplier_id db =
     (case find (\<lambda>s. s_id s = disrupted_supplier_id) (db_suppliers db) of
        None \<Rightarrow> []
      | Some disrupted \<Rightarrow>
          (case (case supplies disrupted of None \<Rightarrow> [''unknown''] | Some xs \<Rightarrow> xs) of
             [] \<Rightarrow> []
           | material # _ \<Rightarrow>
               score_candidates
                 (candidate_query db material disrupted_supplier_id (s_company_id disrupted))
                 disrupted
                 (case supply_volume_pct disrupted of None \<Rightarrow> 50 | Some v \<Rightarrow> v)))"

definition ranking :: "py_error + alternate list \<Rightarrow> (string \<times> rat \<times> rat) list" where
  "ranking r =
     (case r of
        Inl e \<Rightarrow> []
      | Inr xs \<Rightarrow> map (\<lambda>a. (alt_name a, alt_score a, alt_lead_time_weeks a)) xs)"

definition candidate_doc ::
  "string \<Rightarrow> string \<Rightarrow> rat \<Rightarrow> rat \<Rightarrow> supplier" where
  "candidate_doc ident nm weeks esg_pts =
     \<lparr>s_id = ident, s_company_id = Some ''company_nayara_energy'',
      s_name = Some nm, s_country = Some ''Qatar'', supplies = Some [''LPG''],
      supply_volume_pct = Some 0, status = Some ''alternate'', approved_vendor = Some True,
      pre_qualified = Some False, is_single_source = Some False, esg_score = Val esg_pts,
      financial_health_score = Val 5, max_capacity = Val 100,
      switching_cost_estimate = Val 5, lead_time_weeks = Some weeks\<rparr>"

definition catalog :: "supplier list \<Rightarrow> db" where
  "catalog ss =
     \<lparr>db_companies = [scenario_company 10], db_suppliers = scenario_supplier 50 False # ss,
      db_articles = [], db_risk_events = [], db_alerts = []\<rparr>"

section \<open>Alert generation (risk\_engine/alert\_generator.py)\<close>

text \<open>
  The settings that \<open>create_alert\<close> reads, with their defaults from utils/config.py.
\<close>

record settings =
  alert_threshold_score :: rat
  settings_company_id :: string

definition default_settings :: settings where
  "default_settings =
     \<lparr>alert_threshold_score = 3, settings_company_id = ''company_nayara_energy''\<rparr>"

text \<open>
  \<open>risk_event.get("risk_score", 0.0)\<close> and
  \<open>risk_event.get("affected_supply_chain_nodes", [])\<close>.
\<close>

definition event_score :: "risk_event \<Rightarrow> rat" where
  "event_score risk_event = (case re_risk_score risk_event of None \<Rightarrow> 0 | Some s \<Rightarrow> s)"

definition event_nodes :: "risk_event \<Rightarrow> string list" where
  "event_nodes risk_event =
     (case affected_supply_chain_nodes risk_event of None \<Rightarrow> [] | Some ns \<Rightarrow> ns)"

definition should_create_alert :: "settings \<Rightarrow> risk_event \<Rightarrow> bool" where
  "should_create_alert st risk_event =
     (let risk_score = event_score risk_event;
          threshold = alert_threshold_score st
      in if risk_score < threshold then False
         else (let affected_nodes = event_nodes risk_event
               in if affected_nodes = [] then False else True))"

subsection \<open>Alert texts (recommender/recommendation\_text.py)\<close>

text \<open>
  \<open>str.title\<close> on ASCII text: a letter is upper-cased after a non-letter and lower-cased
  after a letter. \<open>", ".join\<close> puts the separator between the items.
\<close>

definition is_lower_char :: "char \<Rightarrow> bool" where
  "is_lower_char c = (let n = (of_char c :: nat) in 97 \<le> n \<and> n \<le> 122)"

definition is_upper_char :: "char \<Rightarrow> bool" where
  "is_upper_char c = (let n = (of_char c :: nat) in 65 \<le> n \<and> n \<le> 90)"

fun title_from :: "bool \<Rightarrow> string \<Rightarrow> string" where
  "title_from previous_is_cased [] = []"
| "title_from previous_is_cased (c # cs) =
     (if is_lower_char c
      then (if previous_is_cased then c else upper_char c) # title_from True cs
      else if is_upper_char c
      then (if previous_is_cased then lower_char c else c) # title_from True cs
      else c # title_from False cs)"

definition title :: "string \<Rightarrow> string" where
  "title s = title_from False s"

definition replace_underscore :: "string \<Rightarrow> string" where
  "replace_underscore s = map (\<lambda>c. if c = CHR ''_'' then CHR '' '' else c) s"

fun join :: "string \<Rightarrow> string list \<Rightarrow> string" where
  "join sep [] = []"
| "join sep [x] = x"
| "join sep (x # y # ys) = x @ sep @ join sep (y # ys)"

definition generate_alert_title :: "risk_event \<Rightarrow> string" where
  "generate_alert_title risk_event =
     (let rtype = title (replace_underscore
                    (case risk_type risk_event of None \<Rightarrow> ''unknown'' | Some t \<Rightarrow> t));
          affected = (case affected_supply_chain_nodes risk_event of
                        None \<Rightarrow> [''Unknown''] | Some ns \<Rightarrow> ns);
          affected_str = (case affected of [] \<Rightarrow> ''Supply Chain'' | a # _ \<Rightarrow> a)
      in rtype @ '' Risk: '' @ affected_str)"

definition generate_alert_description :: "risk_event \<Rightarrow> string" where
  "generate_alert_description risk_event =
     (let description = (case reasoning risk_event of
                           None \<Rightarrow> ''Supply chain disruption detected'' | Some r \<Rightarrow> r);
          entities = (case affected_entities risk_event of None \<Rightarrow> [] | Some es \<Rightarrow> es)
      in if entities \<noteq> []
         then description @ '' Affected entities: '' @ join '', '' (take 5 entities) @ ''.''
         else description)"

text \<open>
  \<open>generate_recommendation_text\<close> reads \<open>company_profile['company_name']\<close> for its
  prompt, which raises \<open>KeyError\<close> when the key is absent. The wording it returns comes
  from the language model or from the fallback template; it is the value of the client
  function on the alternates.
\<close>

definition generate_recommendation_text ::
  "(alternate list \<Rightarrow> string) \<Rightarrow> alternate list \<Rightarrow> company \<Rightarrow> py_error + string" where
  "generate_recommendation_text gemini_client alternates company_profile =
     (case company_name company_profile of
        None \<Rightarrow> Inl KeyError
      | Some _ \<Rightarrow> Inr (gemini_client alternates))"

subsection \<open>Creating an alert\<close>

text \<open>
  The body of the \<open>try\<close> block of \<open>create_alert\<close> up to the insertion. \<open>NotFound\<close> is the
  early \<open>return None\<close> for a missing company; the other errors are the exceptions that
  the \<open>except\<close> clause turns into \<open>return None\<close>.
\<close>

definition build_alert ::
  "settings \<Rightarrow> risk_event \<Rightarrow> db \<Rightarrow> (alternate list \<Rightarrow> string) option \<Rightarrow> py_error + alert" where
  "build_alert st risk_event db gemini_client =
     (let company_id = (case re_company_id risk_event of
                          None \<Rightarrow> settings_company_id st | Some c \<Rightarrow> c)
      in case find (\<lambda>c. c_id c = company_id) (db_companies db) of
           None \<Rightarrow> Inl NotFound
         | Some company \<Rightarrow>
      (let affected_nodes = event_nodes risk_event;
           primary_supplier_name = (case affected_nodes of [] \<Rightarrow> ''Unknown'' | n # _ \<Rightarrow> n);
           supplier = find (\<lambda>s. s_name s = Some primary_supplier_name
                                \<and> s_company_id s = Some company_id) (db_suppliers db)
       in case (case supplier of
                  None \<Rightarrow> Inr ''unknown''
                | Some s \<Rightarrow> (case (case supplies s of None \<Rightarrow> [''unknown''] | Some xs \<Rightarrow> xs) of
                               [] \<Rightarrow> Inl IndexError
                             | m # _ \<Rightarrow> Inr m)) of
            Inl e \<Rightarrow> Inl e
          | Inr affected_material \<Rightarrow>
       (let alert_title = generate_alert_title risk_event;
            description = generate_alert_description risk_event
        in case (case supplier of
                   None \<Rightarrow> Inr []
                 | Some s \<Rightarrow> find_alternates (s_id s) db 5) of
             Inl e \<Rightarrow> Inl e
           | Inr alternates \<Rightarrow>
        (case (case (supplier, gemini_client) of
                 (Some s, Some client) \<Rightarrow>
                   (if alternates \<noteq> []
                    then (case re_risk_score risk_event of
                            None \<Rightarrow> Inl KeyError
                          | Some _ \<Rightarrow>
                         (case re_severity_band risk_event of
                            None \<Rightarrow> Inl KeyError
                          | Some _ \<Rightarrow>
                         (case generate_recommendation_text client alternates company of
                            Inl e \<Rightarrow> Inl e
                          | Inr txt \<Rightarrow> Inr (Some txt))))
                    else Inr None)
               | _ \<Rightarrow> Inr None) of
           Inl e \<Rightarrow> Inl e
         | Inr recommendation_text \<Rightarrow>
        (case re_id risk_event of
           None \<Rightarrow> Inl KeyError
         | Some rid \<Rightarrow>
        (case re_severity_band risk_event of
           None \<Rightarrow> Inl KeyError
         | Some band \<Rightarrow>
        (case re_risk_score risk_event of
           None \<Rightarrow> Inl KeyError
         | Some score \<Rightarrow>
             Inr \<lparr>al_risk_event_id = rid,
                  al_company_id = company_id,
                  al_severity_band = band,
                  al_risk_score = score,
                  al_title = alert_title,
                  al_description = description,
                  al_affected_supplier = primary_supplier_name,
                  al_affected_material = affected_material,
                  al_recommendations = alternates,
                  al_recommendation_text = recommendation_text,
                  al_is_acknowledged = False,
                  al_notification_sent = False\<rparr>)))))))"

text \<open>
  \<open>create_alert\<close> returns the id of the inserted alert and the new database;
  \<open>inserted_id\<close> is the id that the store assigns.
\<close>

definition create_alert ::
  "settings \<Rightarrow> risk_event \<Rightarrow> db \<Rightarrow> (alternate list \<Rightarrow> string) option \<Rightarrow> string
     \<Rightarrow> string option \<times> db" where
  "create_alert st risk_event db gemini_client inserted_id =
     (if \<not> should_create_alert st risk_event then (None, db)
      else case build_alert st risk_event db gemini_client of
             Inl e \<Rightarrow> (None, db)
           | Inr alert \<Rightarrow> (Some inserted_id, db\<lparr>db_alerts := db_alerts db @ [alert]\<rparr>))"

definition scored_event :: risk_event where
  "scored_event =
     (scenario_event ''critical'' (CStr ''true'') ''immediate'')
       \<lparr>re_risk_score := Some (1425 / 100), re_severity_band := Some ''critical''\<rparr>"

section \<open>Deduplication (ingestion/deduplicator.py)\<close>

text \<open>
  \<open>str.strip\<close> removes leading and trailing whitespace; on ASCII text the whitespace
  characters are the codes 9 to 13 and 28 to 32.
\<close>

definition is_space :: "char \<Rightarrow> bool" where
  "is_space c = (let n = (of_char c :: nat) in (9 \<le> n \<and> n \<le> 13) \<or> (28 \<le> n \<and> n \<le> 32))"

definition strip :: "string \<Rightarrow> string" where
  "strip s = rev (dropWhile is_space (rev (dropWhile is_space s)))"

text \<open>
  The string that \<open>generate_fingerprint\<close> hashes: the headline in lower case and
  stripped, followed, when the body is present and not empty, by a space and the first
  100 characters of the body in lower case and stripped.
\<close>

definition fingerprint_content :: "article \<Rightarrow> string" where
  "fingerprint_content article =
     (let hl = strip (lower (case headline article of None \<Rightarrow> [] | Some h \<Rightarrow> h))
      in case body article of
           None \<Rightarrow> hl
         | Some b \<Rightarrow> if b \<noteq> [] then hl @ '' '' @ strip (lower (take 100 b)) else hl)"

text \<open>
  \<open>hashlib.md5\<close> is a library function: it is a parameter, a function from the content
  to a 128-bit digest.
\<close>

definition generate_fingerprint :: "(string \<Rightarrow> 128 word) \<Rightarrow> article \<Rightarrow> 128 word" where
  "generate_fingerprint md5 article = md5 (fingerprint_content article)"

text \<open>
  The content that the specification's formula
  \<open>lowercase(headline) + " " + lowercase(body[:100])\<close> describes, for comparison.
\<close>

definition spec_content :: "article \<Rightarrow> string" where
  "spec_content article =
     lower (case headline article of None \<Rightarrow> [] | Some h \<Rightarrow> h) @ '' '' @
     lower (take 100 (case body article of None \<Rightarrow> [] | Some b \<Rightarrow> b))"

definition news_article :: "string \<Rightarrow> string \<Rightarrow> article" where
  "news_article h b =
     \<lparr>event_id = Some ''3f0c-e1'', headline = Some h, body = Some b,
      raw_relevance_score = Some 0, processed = Some False, risk_extracted = Some False\<rparr>"

section \<open>Risk extraction worker (risk\_engine/workers.py)\<close>

text \<open>
  The JSON object that the language model returns, and the record pushed to the
  \<open>risk_entities\<close> stream. The state of the handler is the database and that stream.
\<close>

record risk_extraction =
  is_risk :: "bool option"
  x_risk_type :: "string option"
  x_affected_entities :: "string list option"
  x_affected_supply_chain_nodes :: "string list option"
  x_severity :: "string option"
  x_is_confirmed :: "confirmed option"
  x_time_horizon :: "string option"
  x_reasoning :: "string option"

record risk_entity_message =
  msg_risk_event_id :: string
  msg_risk_type :: string
  msg_severity :: string
  msg_affected_nodes :: "string list"

record pipeline =
  store :: db
  risk_entities :: "risk_entity_message list"

text \<open>
  \<open>not risk_data\<close> holds for an empty dictionary. \<open>update_one\<close> (without upsert) changes
  the first matching document and nothing when none matches. \<open>insert_one\<close> on the
  articles raises on a duplicate \<open>event_id\<close>, which has a unique index.
\<close>

definition empty_dict :: "risk_extraction \<Rightarrow> bool" where
  "empty_dict rd \<longleftrightarrow>
     is_risk rd = None \<and> x_risk_type rd = None \<and> x_affected_entities rd = None
     \<and> x_affected_supply_chain_nodes rd = None \<and> x_severity rd = None
     \<and> x_is_confirmed rd = None \<and> x_time_horizon rd = None \<and> x_reasoning rd = None"

fun update_one ::
  "('a \<Rightarrow> bool) \<Rightarrow> ('a \<Rightarrow> 'a) \<Rightarrow> 'a list \<Rightarrow> 'a list" where
  "update_one matches set_fields [] = []"
| "update_one matches set_fields (d # ds) =
     (if matches d then set_fields d # ds else d # update_one matches set_fields ds)"

definition insert_article :: "article \<Rightarrow> article list \<Rightarrow> py_error + article list" where
  "insert_article doc coll =
     (if \<exists>d \<in> set coll. event_id d = event_id doc then Inl DuplicateKeyError
      else Inr (coll @ [doc]))"

text \<open>
  The risk event document of the handler; \<open>risk_data["risk_type"]\<close>,
  \<open>risk_data["severity"]\<close> and \<open>risk_data["time_horizon"]\<close> raise when absent. The zeroed
  score is written, to be replaced by the scoring worker.
\<close>

definition new_risk_event ::
  "string \<Rightarrow> company \<Rightarrow> risk_extraction \<Rightarrow> py_error + risk_event" where
  "new_risk_event inserted_id company_profile risk_data =
     (case x_risk_type risk_data of
        None \<Rightarrow> Inl KeyError
      | Some rtype \<Rightarrow>
     (case x_severity risk_data of
        None \<Rightarrow> Inl KeyError
      | Some sev \<Rightarrow>
     (case x_time_horizon risk_data of
        None \<Rightarrow> Inl KeyError
      | Some horizon \<Rightarrow>
          Inr \<lparr>re_id = Some inserted_id,
               re_company_id = Some (c_id company_profile),
               risk_type = Some rtype,
               affected_entities =
                 Some (case x_affected_entities risk_data of None \<Rightarrow> [] | Some es \<Rightarrow> es),
               affected_supply_chain_nodes =
                 Some (case x_affected_supply_chain_nodes risk_data of
                         None \<Rightarrow> [] | Some ns \<Rightarrow> ns),
               severity = Some sev,
               is_confirmed =
                 Some (case x_is_confirmed risk_data of
                         None \<Rightarrow> CStr ''uncertain'' | Some c \<Rightarrow> c),
               time_horizon = Some horizon,
               reasoning = Some (case x_reasoning risk_data of None \<Rightarrow> [] | Some r \<Rightarrow> r),
               re_risk_score = Some 0,
               re_severity_band = Some ''low''\<rparr>)))"

definition new_message :: "string \<Rightarrow> risk_extraction \<Rightarrow> py_error + risk_entity_message" where
  "new_message risk_event_id risk_data =
     (case x_risk_type risk_data of
        None \<Rightarrow> Inl KeyError
      | Some rtype \<Rightarrow>
     (case x_severity risk_data of
        None \<Rightarrow> Inl KeyError
      | Some sev \<Rightarrow>
          Inr \<lparr>msg_risk_event_id = risk_event_id,
               msg_risk_type = rtype,
               msg_severity = sev,
               msg_affected_nodes =
                 (case x_affected_supply_chain_nodes risk_data of
                    None \<Rightarrow> [] | Some ns \<Rightarrow> ns)\<rparr>))"

text \<open>
  The handler of \<open>process_risk_extraction_task\<close> for one article. The relevance filter
  and the language model are external: their outcomes are arguments. Every exception
  inside the handler is caught and logged, and what was written before it stays written.
\<close>

definition extraction_handler ::
  "company \<Rightarrow> py_error + bool \<times> rat \<Rightarrow> py_error + risk_extraction option \<Rightarrow> string
     \<Rightarrow> article \<Rightarrow> pipeline \<Rightarrow> pipeline" where
  "extraction_handler company_profile relevance extraction risk_event_oid article_data w =
     (case relevance of
        Inl e \<Rightarrow> w
      | Inr (relevant, relevance_score) \<Rightarrow>
          if \<not> relevant then w
          else
            (case extraction of
               Inl e \<Rightarrow> w
             | Inr None \<Rightarrow> w
             | Inr (Some risk_data) \<Rightarrow>
                 if empty_dict risk_data then w
                 else if \<not> truthy (is_risk risk_data)
                 then w\<lparr>store := (store w)\<lparr>db_articles :=
                        update_one (\<lambda>d. event_id d = event_id article_data)
                          (\<lambda>d. d\<lparr>processed := Some True, risk_extracted := Some False\<rparr>)
                          (db_articles (store w))\<rparr>\<rparr>
                 else
                   (let article_doc =
                          article_data\<lparr>raw_relevance_score := Some relevance_score,
                                       processed := Some True,
                                       risk_extracted := Some True\<rparr>
                    in case insert_article article_doc (db_articles (store w)) of
                         Inl e \<Rightarrow> w
                       | Inr articles' \<Rightarrow>
                           (let w1 = w\<lparr>store := (store w)\<lparr>db_articles := articles'\<rparr>\<rparr>
                            in case new_risk_event risk_event_oid company_profile risk_data of
                                 Inl e \<Rightarrow> w1
                               | Inr risk_event \<Rightarrow>
                                   (let w2 = w1\<lparr>store := (store w1)\<lparr>db_risk_events :=
                                                 db_risk_events (store w1) @ [risk_event]\<rparr>\<rparr>
                                    in case new_message risk_event_oid risk_data of
                                         Inl e \<Rightarrow> w2
                                       | Inr msg \<Rightarrow>
                                           w2\<lparr>risk_entities := risk_entities w2 @ [msg]\<rparr>)))))"

definition not_a_risk :: risk_extraction where
  "not_a_risk =
     \<lparr>is_risk = Some False, x_risk_type = Some ''other'', x_affected_entities = Some [],
      x_affected_supply_chain_nodes = Some [], x_severity = Some ''low'',
      x_is_confirmed = Some (CStr ''uncertain''), x_time_horizon = Some ''months'',
      x_reasoning = Some ''No link to the supply chain''\<rparr>"

definition fresh_pipeline :: pipeline where
  "fresh_pipeline = \<lparr>store = catalog [], risk_entities = []\<rparr>"

section \<open>Verified properties\<close>

subsection \<open>Rounding\<close>

lemma floor_rat_numeral [simp]: "\<lfloor>numeral a / numeral b :: rat\<rfloor> = numeral a div numeral b"
  using floor_divide_of_int_eq [of "numeral a" "numeral b", where ?'a = rat] by simp

lemma floor_rat_neg_numeral [simp]:
  "\<lfloor>- (numeral a / numeral b) :: rat\<rfloor> = - numeral a div numeral b"
  using floor_divide_of_int_eq [of "- numeral a" "numeral b", where ?'a = rat] by simp

lemma rhe_lower: "\<lfloor>x\<rfloor> \<le> round_half_even x"
  by (simp add: round_half_even_def Let_def)

lemma rhe_of_int: "round_half_even (of_int k) = k"
  by (simp add: round_half_even_def Let_def)

lemma rhe_mono: "x \<le> y \<Longrightarrow> round_half_even x \<le> round_half_even y"
proof -
  assume xy: "x \<le> y"
  have fl: "\<lfloor>x\<rfloor> \<le> \<lfloor>y\<rfloor>" using xy by (rule floor_mono)
  show ?thesis
  proof (cases "\<lfloor>x\<rfloor> = \<lfloor>y\<rfloor>")
    case True
    then show ?thesis using xy
      by (auto simp: round_half_even_def Let_def)
  next
    case False
    then have "\<lfloor>x\<rfloor> + 1 \<le> \<lfloor>y\<rfloor>" using fl by simp
    moreover have "round_half_even x \<le> \<lfloor>x\<rfloor> + 1"
      by (simp add: round_half_even_def Let_def)
    ultimately show ?thesis using rhe_lower [of y] by linarith
  qed
qed

lemma py_round_mono: "x \<le> y \<Longrightarrow> py_round n x \<le> py_round n y"
  unfolding py_round_def
  by (intro divide_right_mono iffD2 [OF of_int_le_iff] rhe_mono mult_right_mono) simp_all

lemma py_round_fix: "py_round n (of_int k / 10 ^ n) = of_int k / 10 ^ n"
  by (simp add: py_round_def rhe_of_int)

lemma py_round_ge: "of_int k / 10 ^ n \<le> x \<Longrightarrow> of_int k / 10 ^ n \<le> py_round n x"
  using py_round_mono [of "of_int k / 10 ^ n" x n] by (simp add: py_round_fix)

lemma py_round_le: "x \<le> of_int k / 10 ^ n \<Longrightarrow> py_round n x \<le> of_int k / 10 ^ n"
  using py_round_mono [of x "of_int k / 10 ^ n" n] by (simp add: py_round_fix)

subsection \<open>Scoring\<close>

lemma prob_bounds: "0 \<le> calc_probability rd \<and> calc_probability rd \<le> 1"
  by (simp add: calc_probability_def prob_map_def Let_def)

lemma mit_bounds: "1 / 2 \<le> calc_mitigation m s cp \<and> calc_mitigation m s cp \<le> 2"
  by (auto simp add: calc_mitigation_def count_alternate_suppliers_def Let_def min_def max_def
      split: option.splits)

text \<open>
  \<open>calculate_risk_score\<close> raises only on an empty \<open>supplies\<close> list and on an inventory
  of -30 days; on every other input it returns.
\<close>

lemma calculate_risk_score_returns:
  assumes "(case supplies s of None \<Rightarrow> [''unknown''] | Some xs \<Rightarrow> xs) = m # ms"
    and "(case (case inventory_days cp of None \<Rightarrow> Map.empty | Some iv \<Rightarrow> iv) m of
            None \<Rightarrow> 0 | Some d \<Rightarrow> d) \<noteq> - 30"
  shows "\<exists>r. calculate_risk_score rd s cp = Inr r"
proof -
  let ?d = "(case (case inventory_days cp of None \<Rightarrow> Map.empty | Some iv \<Rightarrow> iv) m of
              None \<Rightarrow> 0 | Some d \<Rightarrow> d)"
  have "of_int ?d \<noteq> (- 30 :: rat)" using assms(2) by (metis of_int_eq_iff of_int_minus of_int_numeral)
  then have "1 + of_int ?d / 30 \<noteq> (0 :: rat)" by (simp add: field_simps add_eq_0_iff)
  then show ?thesis using assms(1) by (simp add: calculate_risk_score_def Let_def)
qed

text \<open>
  Claim C1 (Scenario A). A critical, confirmed, immediate risk on a single-source supplier
  that provides 100 percent of a material of criticality 5 with 10 days of inventory scores
  probability 0.95, impact 3.75, urgency 2.0, mitigation 0.5, risk score 14.25, band
  critical. The other fields of the three documents do not matter.
\<close>

theorem C1_scenario_A:
  assumes "severity rd = Some ''critical''"
    and "is_confirmed rd = Some c" and "c = CStr ''true'' \<or> c = CBool True"
    and "time_horizon rd = Some ''immediate''"
    and "supply_volume_pct s = Some 100" and "is_single_source s = Some True"
    and "supplies s = Some (m # ms)"
    and "material_criticality cp = Some mc" and "mc m = Some 5"
    and "inventory_days cp = Some iv" and "iv m = Some 10"
  shows "calculate_risk_score rd s cp =
     Inr \<lparr>risk_score = 1425 / 100, severity_band = ''critical'',
          comps = \<lparr>probability = 95 / 100, impact = 375 / 100, urgency = 2,
                   mitigation = 1 / 2\<rparr>\<rparr>"
  using assms
  by (auto simp add: calculate_risk_score_def calc_probability_def calc_mitigation_def
      prob_map_def urgency_map_def score_to_band_def Let_def py_round_def round_half_even_def)

theorem C1_scenario_A_witness:
  "calculate_risk_score (scenario_event ''critical'' (CStr ''true'') ''immediate'')
     (scenario_supplier 100 True) (scenario_company 10) =
     Inr \<lparr>risk_score = 1425 / 100, severity_band = ''critical'',
          comps = \<lparr>probability = 95 / 100, impact = 375 / 100, urgency = 2,
                   mitigation = 1 / 2\<rparr>\<rparr>"
  by (rule C1_scenario_A [where c = "CStr ''true''" and m = "''LPG''" and ms = "[]"
        and mc = "[''LPG'' \<mapsto> 5]" and iv = "[''LPG'' \<mapsto> 10]"])
     (simp_all add: scenario_event_def scenario_supplier_def scenario_company_def)

text \<open>
  Claim C4. Whenever \<open>calculate_risk_score\<close> returns, the components it returns satisfy
  mitigation in [0.5, 2.0], impact in [1, 10] and probability in [0, 1].
\<close>

theorem C4_component_ranges:
  assumes "calculate_risk_score rd s cp = Inr r"
  shows "1 / 2 \<le> mitigation (comps r) \<and> mitigation (comps r) \<le> 2 \<and>
         1 \<le> impact (comps r) \<and> impact (comps r) \<le> 10 \<and>
         0 \<le> probability (comps r) \<and> probability (comps r) \<le> 1"
proof -
  have p0: "0 \<le> py_round 3 x" if "0 \<le> x" for x
    using py_round_ge [of 0 3 x] that by simp
  have p1: "py_round 3 x \<le> 1" if "x \<le> 1" for x
    using py_round_le [of x 1000 3] that by simp
  have i1: "1 \<le> py_round 2 x" if "1 \<le> x" for x
    using py_round_ge [of 100 2 x] that by simp
  have i10: "py_round 2 x \<le> 10" if "x \<le> 10" for x
    using py_round_le [of x 1000 2] that by simp
  show ?thesis
    using assms prob_bounds [of rd] mit_bounds
    by (auto simp add: calculate_risk_score_def Let_def p0 p1 i1 i10
        split: list.splits if_splits)
qed

lemma low_risk_value:
  "calculate_risk_score (scenario_event ''low'' (CStr ''true'') ''months'')
     (scenario_supplier 20 False) (scenario_company 10) =
     Inr \<lparr>risk_score = 12 / 100, severity_band = ''low'',
          comps = \<lparr>probability = 25 / 100, impact = 1, urgency = 1 / 2,
                   mitigation = 1\<rparr>\<rparr>"
  by (simp add: calculate_risk_score_def calc_probability_def calc_mitigation_def
      count_alternate_suppliers_def prob_map_def urgency_map_def score_to_band_def Let_def
      py_round_def round_half_even_def scenario_event_def scenario_supplier_def
      scenario_company_def)

theorem C4_component_ranges_witness:
  "calculate_risk_score (scenario_event ''low'' (CStr ''true'') ''months'')
     (scenario_supplier 20 False) (scenario_company 10) =
     Inr \<lparr>risk_score = 12 / 100, severity_band = ''low'',
          comps = \<lparr>probability = 25 / 100, impact = 1, urgency = 1 / 2,
                   mitigation = 1\<rparr>\<rparr>
   \<and> (1 / 2 :: rat) \<le> 1 \<and> (1 :: rat) \<le> 2 \<and> (1 :: rat) \<le> 1 \<and> (1 :: rat) \<le> 10
   \<and> (0 :: rat) \<le> 25 / 100 \<and> (25 / 100 :: rat) \<le> 1"
  using C4_component_ranges [OF low_risk_value] low_risk_value by simp






subsection \<open>Propagation\<close>

lemma relax_cases:
  assumes "relax G \<theta> score (successor, edge) st = Inr st'"
  obtains (same) "st' = st"
  | (update) nd where "map_of (nodes G) successor = Some nd"
      and "\<theta> < propagated_score score edge nd"
      and "\<And>old. propagated st successor = Some old \<Longrightarrow> old < propagated_score score edge nd"
      and "st' = st\<lparr>propagated := (propagated st)(successor \<mapsto>
                          py_round 2 (propagated_score score edge nd)),
                     queue := queue st @ [(successor, propagated_score score edge nd)]\<rparr>"
  using assms
  by (auto simp: relax_def Let_def split: option.splits if_splits)

lemma relax_frame:
  assumes "relax G \<theta> score se st = Inr st'"
  shows "visited st' = visited st \<and> fst ` set (queue st') \<subseteq> fst ` set (queue st) \<union> node_set G"
proof -
  obtain successor edge where se: "se = (successor, edge)" by (cases se)
  from assms [unfolded se] show ?thesis
  proof (cases rule: relax_cases)
    case same
    then show ?thesis by auto
  next
    case (update nd)
    from update(1) have "successor \<in> node_set G"
      by (auto simp: node_set_def dest!: map_of_SomeD intro: rev_image_eqI)
    with update(4) show ?thesis by auto
  qed
qed

lemma expand_frame:
  assumes "expand G \<theta> score ses st = Inr st'"
  shows "visited st' = visited st \<and> fst ` set (queue st') \<subseteq> fst ` set (queue st) \<union> node_set G"
  using assms
proof (induction ses arbitrary: st)
  case Nil
  then show ?case by simp
next
  case (Cons se ses)
  from Cons.prems obtain st1 where r: "relax G \<theta> score se st = Inr st1"
    and e: "expand G \<theta> score ses st1 = Inr st'"
    by (auto split: sum.splits)
  from relax_frame [OF r] Cons.IH [OF e] show ?case by blast
qed

lemma loop_body_progress:
  assumes q: "queue st = (node, score) # rest"
    and sub: "fst ` set (queue st) \<subseteq> node_set G"
    and lb: "loop_body G \<theta> st = Inr st'"
  shows "fst ` set (queue st') \<subseteq> node_set G \<and>
         ((visited st' = visited st \<and> length (queue st') < length (queue st)) \<or>
          (node \<notin> visited st \<and> visited st' = insert node (visited st)))"
proof (cases "node \<in> visited st")
  case True
  then have "st' = st\<lparr>queue := rest\<rparr>" using lb q by (simp add: loop_body_def)
  then show ?thesis using q sub by simp
next
  case False
  then obtain ses where
    ex: "expand G \<theta> score ses (st\<lparr>queue := rest, visited := insert node (visited st)\<rparr>) = Inr st'"
    using lb q by (simp add: loop_body_def split: sum.splits)
  have "visited st' = insert node (visited st)"
    using expand_frame [OF ex] by simp
  moreover have "fst ` set (queue st') \<subseteq> fst ` set rest \<union> node_set G"
    using expand_frame [OF ex] by simp
  moreover have "fst ` set rest \<subseteq> node_set G" using q sub by simp
  ultimately show ?thesis using False by blast
qed

lemma bfs_loop_terminates:
  assumes "fst ` set (queue st) \<subseteq> node_set G"
  shows "\<exists>r. bfs_loop G \<theta> st = Some r"
proof -
  define R where "R = inv_image (less_than <*lex*> less_than)
      (\<lambda>st :: pstate. (card (node_set G - visited st), length (queue st)))"
  have wfR: "wf R" unfolding R_def by (intro wf_inv_image wf_lex_prod wf_less_than)
  have fin: "finite (node_set G)" by (simp add: node_set_def)
  show ?thesis using wfR assms
  proof (induction st rule: wf_induct_rule)
    case (less st)
    show ?case
    proof (cases "queue st")
      case Nil
      then show ?thesis by (subst bfs_loop.simps) simp
    next
      case (Cons ns rest)
      obtain node score where ns: "ns = (node, score)" by (cases ns)
      have q: "queue st = (node, score) # rest" using Cons ns by simp
      have nodeN: "node \<in> node_set G" using less.prems q by simp
      show ?thesis
      proof (cases "loop_body G \<theta> st")
        case (Inl e)
        then show ?thesis using q by (subst bfs_loop.simps) simp
      next
        case (Inr st')
        note pr = loop_body_progress [OF q less.prems Inr]
        have "(st', st) \<in> R"
        proof (cases "node \<in> visited st")
          case True
          then show ?thesis using pr by (simp add: R_def)
        next
          case False
          have "node_set G - insert node (visited st) \<subset> node_set G - visited st"
            using nodeN False by blast
          then have "card (node_set G - insert node (visited st)) < card (node_set G - visited st)"
            using fin by (intro psubset_card_mono) simp_all
          moreover have "visited st' = visited st \<or> visited st' = insert node (visited st)"
            using pr by blast
          moreover have "visited st' = visited st \<Longrightarrow> length (queue st') < length (queue st)"
            using pr False by blast
          ultimately show ?thesis by (auto simp: R_def)
        qed
        moreover have "fst ` set (queue st') \<subseteq> node_set G" using pr by blast
        ultimately have "\<exists>r. bfs_loop G \<theta> st' = Some r" using less.IH by blast
        then show ?thesis using Inr q by (subst bfs_loop.simps) simp
      qed
    qed
  qed
qed

lemma py_round_idem: "py_round n (py_round n x) = py_round n x"
proof -
  have "py_round n x = of_int (round_half_even (x * 10 ^ n)) / 10 ^ n"
    by (simp add: py_round_def)
  then show ?thesis by (simp only: py_round_fix)
qed

lemma expand_invariant:
  assumes "expand G \<theta> score ses st = Inr st'" and "J st"
    and "\<And>se s s'. se \<in> set ses \<Longrightarrow> J s \<Longrightarrow> relax G \<theta> score se s = Inr s' \<Longrightarrow> J s'"
  shows "J st'"
  using assms
proof (induction ses arbitrary: st)
  case Nil
  then show ?case by simp
next
  case (Cons se ses)
  from Cons.prems(1) obtain st1 where r: "relax G \<theta> score se st = Inr st1"
    and e: "expand G \<theta> score ses st1 = Inr st'"
    by (auto split: sum.splits)
  have "J st1" using Cons.prems(3) [OF _ Cons.prems(2) r] by simp
  moreover have "J s'" if "x \<in> set ses" "J s" "relax G \<theta> score x s = Inr s'" for x s s'
    using Cons.prems(3) [OF _ that(2,3)] that(1) by simp
  ultimately show ?case using Cons.IH [OF e] by blast
qed

lemma loop_body_cases:
  assumes "loop_body G \<theta> st = Inr st'"
  obtains (empty) "queue st = []" "st' = st"
  | (skip) node score rest where "queue st = (node, score) # rest" "node \<in> visited st"
      "st' = st\<lparr>queue := rest\<rparr>"
  | (visit) node score rest ses where "queue st = (node, score) # rest" "node \<notin> visited st"
      "successors G node = Inr ses"
      "expand G \<theta> score ses (st\<lparr>queue := rest, visited := insert node (visited st)\<rparr>) = Inr st'"
  using assms
  by (auto simp: loop_body_def split: list.splits if_splits sum.splits)

lemma run_iter_invariant:
  assumes "run_iter G \<theta> k st = Inr st'" and "I st"
    and "\<And>s s'. I s \<Longrightarrow> loop_body G \<theta> s = Inr s' \<Longrightarrow> I s'"
  shows "I st'"
  using assms
proof (induction k arbitrary: st)
  case 0
  then show ?case by simp
next
  case (Suc k)
  from Suc.prems(1) obtain st1 where l: "loop_body G \<theta> st = Inr st1"
    and r: "run_iter G \<theta> k st1 = Inr st'"
    by (auto split: sum.splits)
  have "I st1" using Suc.prems(3) [OF Suc.prems(2) l] .
  then show ?case using Suc.IH [OF r] Suc.prems(3) by simp
qed

lemma bfs_loop_run_iter:
  assumes "bfs_loop G \<theta> st = Some y"
  shows "\<forall>m. y = Inr m \<longrightarrow> (\<exists>k s. run_iter G \<theta> k st = Inr s \<and> propagated s = m \<and> queue s = [])"
proof (rule bfs_loop.raw_induct [where P = "\<lambda>G \<theta> st y.
    \<forall>m. y = Inr m \<longrightarrow> (\<exists>k s. run_iter G \<theta> k st = Inr s \<and> propagated s = m \<and> queue s = [])",
    OF _ assms])
  fix bfs :: "digraph \<Rightarrow> rat \<Rightarrow> pstate \<Rightarrow> (py_error + (string \<rightharpoonup> rat)) option"
  fix G \<theta> st y
  assume IH: "\<And>G \<theta> st y. bfs G \<theta> st = Some y \<Longrightarrow>
    \<forall>m. y = Inr m \<longrightarrow> (\<exists>k s. run_iter G \<theta> k st = Inr s \<and> propagated s = m \<and> queue s = [])"
  assume eq: "(if queue st = [] then Some (Inr (propagated st))
      else case loop_body G \<theta> st of Inl e \<Rightarrow> Some (Inl e) | Inr st' \<Rightarrow> bfs G \<theta> st') = Some y"
  show "\<forall>m. y = Inr m \<longrightarrow> (\<exists>k s. run_iter G \<theta> k st = Inr s \<and> propagated s = m \<and> queue s = [])"
  proof (cases "queue st = []")
    case True
    then have "y = Inr (propagated st)" using eq by simp
    moreover have "run_iter G \<theta> 0 st = Inr st" by simp
    ultimately show ?thesis using True by blast
  next
    case False
    show ?thesis
    proof (cases "loop_body G \<theta> st")
      case (Inl e)
      then show ?thesis using eq False by auto
    next
      case (Inr st1)
      then have step: "bfs G \<theta> st1 = Some y" using eq False by simp
      note ih = IH [OF step]
      show ?thesis
      proof (intro allI impI)
        fix m assume "y = Inr m"
        with ih obtain k s where
          "run_iter G \<theta> k st1 = Inr s" "propagated s = m" "queue s = []" by blast
        then have "run_iter G \<theta> (Suc k) st = Inr s \<and> propagated s = m \<and> queue s = []"
          using Inr by simp
        then show "\<exists>k s. run_iter G \<theta> k st = Inr s \<and> propagated s = m \<and> queue s = []"
          by blast
      qed
    qed
  qed
qed


lemma propagated_score_scale:
  "propagated_score score e nd = score * propagated_score 1 e nd"
  by (simp add: propagated_score_def)

lemma entries_le_refl: "entries_le p p"
  by (simp add: entries_le_def)

lemma entries_le_trans: "entries_le p q \<Longrightarrow> entries_le q r \<Longrightarrow> entries_le p r"
  unfolding entries_le_def by (meson order_trans)

lemma relax_rounded:
  assumes r: "relax G \<theta> score se s = Inr s'" and rd: "rounded (propagated s)"
  shows "rounded (propagated s') \<and> entries_le (propagated s) (propagated s')"
proof -
  obtain v e where se: "se = (v, e)" by (cases se)
  from r [unfolded se] show ?thesis
  proof (cases rule: relax_cases)
    case same
    then show ?thesis using rd by (simp add: entries_le_refl)
  next
    case (update nd)
    let ?ps = "propagated_score score e nd"
    have r': "rounded (propagated s')"
      using rd unfolding update(4) rounded_def by (auto simp: py_round_idem)
    have "old \<le> py_round 2 ?ps" if "propagated s v = Some old" for old
    proof -
      have "old < ?ps" using update(3) that by simp
      then have "py_round 2 old \<le> py_round 2 ?ps" by (intro py_round_mono) simp
      moreover have "py_round 2 old = old" using rd that by (simp add: rounded_def)
      ultimately show ?thesis by simp
    qed
    then have "entries_le (propagated s) (propagated s')"
      unfolding update(4) entries_le_def by auto
    with r' show ?thesis by simp
  qed
qed

lemma loop_body_growing:
  assumes lb: "loop_body G \<theta> s = Inr s'" and g: "growing p0 s"
  shows "growing p0 s'"
  using lb
proof (cases rule: loop_body_cases)
  case empty
  then show ?thesis using g by simp
next
  case (skip node score rest)
  then show ?thesis using g by (simp add: growing_def)
next
  case (visit node score rest ses)
  show ?thesis
  proof (rule expand_invariant [OF visit(4), where J = "growing p0"])
    show "growing p0 (s\<lparr>queue := rest, visited := insert node (visited s)\<rparr>)"
      using g by (simp add: growing_def)
  next
    fix se t t'
    assume t: "growing p0 t" and r: "relax G \<theta> score se t = Inr t'"
    from relax_rounded [OF r] t show "growing p0 t'"
      unfolding growing_def by (blast intro: entries_le_trans)
  qed
qed


lemma run_iter_bfs_loop:
  "run_iter G \<theta> k st = Inr st' \<Longrightarrow> bfs_loop G \<theta> st' = bfs_loop G \<theta> st"
proof (induction k arbitrary: st)
  case 0
  then show ?case by simp
next
  case (Suc k)
  from Suc.prems obtain st1 where l: "loop_body G \<theta> st = Inr st1"
    and r: "run_iter G \<theta> k st1 = Inr st'"
    by (auto split: sum.splits)
  have "bfs_loop G \<theta> st = bfs_loop G \<theta> st1"
  proof (cases "queue st = []")
    case True
    then have "st1 = st" using l by (simp add: loop_body_def)
    then show ?thesis by simp
  next
    case False
    then show ?thesis using l by (subst bfs_loop.simps) simp
  qed
  with Suc.IH [OF r] show ?case by simp
qed

lemma run_iter_growing:
  assumes "run_iter G \<theta> k st = Inr st'" and "rounded (propagated st)"
  shows "rounded (propagated st') \<and> entries_le (propagated st) (propagated st')"
proof -
  have "growing (propagated st) st'"
  proof (rule run_iter_invariant [OF assms(1), where I = "growing (propagated st)"])
    show "growing (propagated st) st"
      using assms(2) by (simp add: growing_def entries_le_refl)
  next
    fix s s' assume "growing (propagated st) s" "loop_body G \<theta> s = Inr s'"
    then show "growing (propagated st) s'" by (rule loop_body_growing [rotated])
  qed
  then show ?thesis by (simp add: growing_def)
qed

lemma propagate_risk_bfs_loop:
  "propagate_risk G origin s0 \<theta> = Some (Inr m) \<Longrightarrow>
   bfs_loop G \<theta> (initial_state origin s0) = Some (Inr m)"
  by (simp add: propagate_risk_def split: option.splits)

lemma path_score_reach:
  "path_score G origin s0 \<theta> n x \<Longrightarrow> (origin, n) \<in> (edge_rel G)\<^sup>*"
proof (induction rule: path_score.induct)
  case start
  show ?case by simp
next
  case (step u s ses v e nd)
  have "(u, v) \<in> edge_rel G" using step.hyps(2,3) unfolding edge_rel_def by blast
  with step.IH show ?case by (rule rtrancl_into_rtrancl)
qed


lemma path_score_bounded:
  assumes "0 \<le> s0" and "attenuating_from G origin"
  shows "path_score G origin s0 \<theta> n x \<Longrightarrow> 0 \<le> x \<and> x \<le> s0"
proof (induction rule: path_score.induct)
  case start
  show ?case using assms(1) by simp
next
  case (step u s ses v e nd)
  from assms(2) path_score_reach [OF step.hyps(1)] step.hyps(2,3,4)
  have f: "0 \<le> propagated_score 1 e nd \<and> propagated_score 1 e nd \<le> 1"
    unfolding attenuating_from_def by blast
  have "0 \<le> s * propagated_score 1 e nd" using step.IH f by simp
  moreover have "s * propagated_score 1 e nd \<le> s * 1"
    using step.IH f by (intro mult_left_mono) simp_all
  ultimately show ?case using step.IH by (subst (1 2) propagated_score_scale) simp
qed

text \<open>
  The invariant of the loop: the queue carries path scores, and a property of the result
  map is kept when every update by a path score keeps it.
\<close>

lemma loop_body_map_invariant:
  assumes lb: "loop_body G \<theta> st = Inr st'"
    and q: "queue_ok G origin s0 \<theta> st" and J: "J (propagated st)"
    and upd: "\<And>p u s ses v e nd. J p \<Longrightarrow> path_score G origin s0 \<theta> u s \<Longrightarrow>
        successors G u = Inr ses \<Longrightarrow> (v, e) \<in> set ses \<Longrightarrow> map_of (nodes G) v = Some nd \<Longrightarrow>
        \<theta> < propagated_score s e nd \<Longrightarrow>
        (\<And>old. p v = Some old \<Longrightarrow> old < propagated_score s e nd) \<Longrightarrow>
        J (p(v \<mapsto> py_round 2 (propagated_score s e nd)))"
  shows "queue_ok G origin s0 \<theta> st' \<and> J (propagated st')"
  using lb
proof (cases rule: loop_body_cases)
  case empty
  then show ?thesis using q J by simp
next
  case (skip node score rest)
  then show ?thesis using q J by (simp add: queue_ok_def)
next
  case (visit node score rest ses)
  have ns: "path_score G origin s0 \<theta> node score"
    using q visit(1) by (simp add: queue_ok_def)
  let ?K = "\<lambda>t. queue_ok G origin s0 \<theta> t \<and> J (propagated t)"
  show ?thesis
  proof (rule expand_invariant [OF visit(4), where J = ?K])
    show "?K (st\<lparr>queue := rest, visited := insert node (visited st)\<rparr>)"
      using q J visit(1) by (simp add: queue_ok_def)
  next
    fix se t t'
    assume mem: "se \<in> set ses" and K: "?K t" and r: "relax G \<theta> score se t = Inr t'"
    obtain v e where se: "se = (v, e)" by (cases se)
    from r [unfolded se] show "?K t'"
    proof (cases rule: relax_cases)
      case same
      then show ?thesis using K by simp
    next
      case (update nd)
      have mem': "(v, e) \<in> set ses" using mem se by simp
      have ps: "path_score G origin s0 \<theta> v (propagated_score score e nd)"
        by (rule path_score.step [OF ns visit(3) mem' update(1) update(2)])
      have "J ((propagated t)(v \<mapsto> py_round 2 (propagated_score score e nd)))"
        using K ns visit(3) mem' update(1) update(2) update(3) by (intro upd) simp_all
      then show ?thesis using K ps unfolding update(4) by (simp add: queue_ok_def)
    qed
  qed
qed

lemma run_iter_map_invariant:
  assumes run: "run_iter G \<theta> k st = Inr st'"
    and q: "queue_ok G origin s0 \<theta> st" and J: "J (propagated st)"
    and upd: "\<And>p u s ses v e nd. J p \<Longrightarrow> path_score G origin s0 \<theta> u s \<Longrightarrow>
        successors G u = Inr ses \<Longrightarrow> (v, e) \<in> set ses \<Longrightarrow> map_of (nodes G) v = Some nd \<Longrightarrow>
        \<theta> < propagated_score s e nd \<Longrightarrow>
        (\<And>old. p v = Some old \<Longrightarrow> old < propagated_score s e nd) \<Longrightarrow>
        J (p(v \<mapsto> py_round 2 (propagated_score s e nd)))"
  shows "J (propagated st')"
  using run q J
proof (induction k arbitrary: st)
  case 0
  then show ?case by simp
next
  case (Suc k)
  from Suc.prems(1) obtain st1 where l: "loop_body G \<theta> st = Inr st1"
    and r: "run_iter G \<theta> k st1 = Inr st'"
    by (auto split: sum.splits)
  have "queue_ok G origin s0 \<theta> st1 \<and> J (propagated st1)"
  proof (rule loop_body_map_invariant [OF l Suc.prems(2), where J = J])
    show "J (propagated st)" by (rule Suc.prems(3))
  next
    fix p u s ses v e nd
    assume "J p" "path_score G origin s0 \<theta> u s" "successors G u = Inr ses" "(v, e) \<in> set ses"
      "map_of (nodes G) v = Some nd" "\<theta> < propagated_score s e nd"
      "\<And>old. p v = Some old \<Longrightarrow> old < propagated_score s e nd"
    then show "J (p(v \<mapsto> py_round 2 (propagated_score s e nd)))" by (rule upd)
  qed
  then have q1: "queue_ok G origin s0 \<theta> st1" and J1: "J (propagated st1)" by blast+
  show ?case by (rule Suc.IH [OF r q1 J1])
qed

lemma result_map_invariant:
  assumes pr: "propagate_risk G origin s0 \<theta> = Some (Inr m)"
    and J: "J [origin \<mapsto> s0]"
    and upd: "\<And>p u s ses v e nd. J p \<Longrightarrow> path_score G origin s0 \<theta> u s \<Longrightarrow>
        successors G u = Inr ses \<Longrightarrow> (v, e) \<in> set ses \<Longrightarrow> map_of (nodes G) v = Some nd \<Longrightarrow>
        \<theta> < propagated_score s e nd \<Longrightarrow>
        (\<And>old. p v = Some old \<Longrightarrow> old < propagated_score s e nd) \<Longrightarrow>
        J (p(v \<mapsto> py_round 2 (propagated_score s e nd)))"
  shows "J m"
proof -
  let ?init = "initial_state origin s0"
  from bfs_loop_run_iter [OF propagate_risk_bfs_loop [OF pr]] obtain k st where
    run: "run_iter G \<theta> k ?init = Inr st" and m: "propagated st = m" by blast
  have q0: "queue_ok G origin s0 \<theta> ?init"
    by (simp add: queue_ok_def initial_state_def path_score.start)
  have J0: "J (propagated ?init)" using J by (simp add: initial_state_def)
  have "J (propagated st)"
  proof (rule run_iter_map_invariant [OF run q0, where J = J])
    show "J (propagated ?init)" by (rule J0)
  next
    fix p u s ses v e nd
    assume "J p" "path_score G origin s0 \<theta> u s" "successors G u = Inr ses" "(v, e) \<in> set ses"
      "map_of (nodes G) v = Some nd" "\<theta> < propagated_score s e nd"
      "\<And>old. p v = Some old \<Longrightarrow> old < propagated_score s e nd"
    then show "J (p(v \<mapsto> py_round 2 (propagated_score s e nd)))" by (rule upd)
  qed
  then show ?thesis using m by simp
qed

subsection \<open>Claims on propagation\<close>

text \<open>
  Claim C9. \<open>propagate_risk\<close> terminates on every graph (the tables are finite lists),
  cyclic or not, for every origin, initial score and threshold: it returns a map or raises.
  Each iteration either pops an entry of a visited node, or marks a new node of the graph
  as visited, so the pair (number of unvisited nodes, queue length) decreases.
\<close>

theorem C9_propagate_risk_terminates:
  "\<exists>r. propagate_risk G risk_node_id initial_score threshold = Some r"
proof (cases "map_of (nodes G) risk_node_id")
  case None
  then show ?thesis by (simp add: propagate_risk_def)
next
  case (Some nd)
  then have "risk_node_id \<in> node_set G"
    by (auto simp: node_set_def dest!: map_of_SomeD intro: rev_image_eqI)
  then have "fst ` set (queue (initial_state risk_node_id initial_score)) \<subseteq> node_set G"
    by (simp add: initial_state_def)
  from bfs_loop_terminates [OF this] Some show ?thesis by (simp add: propagate_risk_def)
qed

lemma scenario_E_result:
  "propagate_risk scenario_E ''U'' 8 1 =
     Some (Inr [''U'' \<mapsto> 8, ''S1'' \<mapsto> 10, ''C'' \<mapsto> 6])"
  by (simp add: propagate_risk_def scenario_E_def initial_state_def bfs_loop.simps
      loop_body_def successors_def relax_def propagated_score_def dep_weight_def
      vulnerability_def Let_def py_round_def round_half_even_def)


lemma scenario_E_reach_S1:
  "(''S1'', u) \<in> (edge_rel scenario_E)\<^sup>* \<Longrightarrow> u = ''S1'' \<or> u = ''C''"
proof (induction rule: rtrancl_induct)
  case base
  show ?case by simp
next
  case (step y z)
  then show ?case
    by (auto simp: edge_rel_def successors_def scenario_E_def split: if_splits)
qed


lemma scenario_E_from_S1_result:
  "propagate_risk scenario_E ''S1'' 8 1 = Some (Inr [''S1'' \<mapsto> 8, ''C'' \<mapsto> 24 / 5])"
  by (simp add: propagate_risk_def scenario_E_def initial_state_def bfs_loop.simps
      loop_body_def successors_def relax_def propagated_score_def dep_weight_def
      vulnerability_def Let_def py_round_def round_half_even_def)



text \<open>
  Claim C5, as stated, fails on both counts. In Scenario E of the specification the
  single-source node S1 receives 8.0 * 1.0 * 1.25 = 10.0 from the origin score 8.0. An
  unrounded origin score 4.996 over an edge of weight 1 is stored as 5.0 at the
  successor, and a negative origin score -4 with threshold -10 passes -2 over an edge of
  weight 0.5. And with an unrounded origin score 5.004 in a two-node cycle, the origin
  entry is 5.004 at the start and 5.0 after two iterations: the score 5.0046255 that
  comes back improves on 5.004 and is stored rounded.
\<close>

theorem C5_propagation_bounds_counterexample:
  "lookup_result (propagate_risk scenario_E ''U'' 8 1) ''S1'' = Some 10 \<and> \<not> (10 :: rat) \<le> 8
   \<and> lookup_result (propagate_risk (pair_graph False False 1 None) ''O'' (4996 / 1000) 1) ''A''
       = Some 5
   \<and> \<not> (5 :: rat) \<le> 4996 / 1000
   \<and> lookup_result (propagate_risk (pair_graph False False (1 / 2) None) ''O'' (- 4) (- 10)) ''A''
       = Some (- 2)
   \<and> \<not> (- 2 :: rat) \<le> - 4
   \<and> entry_after (pair_graph True True (8 / 10) (Some (8001 / 10000))) 1 0 ''O''
         (5004 / 1000) ''O'' = Some (5004 / 1000)
   \<and> entry_after (pair_graph True True (8 / 10) (Some (8001 / 10000))) 1 2 ''O''
         (5004 / 1000) ''O'' = Some 5
   \<and> (5 :: rat) < 5004 / 1000"
  by code_simp

text \<open>
  Claim C5, amended. Let the initial score be a multiple of 0.01, as the scorer emits it.
  If moreover it is non-negative and every edge that leaves a node reachable from the
  origin has its factor weight * (0.5 + 0.5 * vulnerability) in [0, 1], every entry of the
  returned map is at most the initial score. And without any condition on the graph, no
  entry decreases from one iteration of the loop to a later one, nor from any iteration
  to the returned map.
\<close>

theorem C5_propagation_bounds:
  assumes rd: "py_round 2 s0 = s0"
  shows "(0 \<le> s0 \<and> attenuating_from G origin \<longrightarrow>
           (\<forall>m k v. propagate_risk G origin s0 \<theta> = Some (Inr m) \<longrightarrow> m k = Some v \<longrightarrow> v \<le> s0))
       \<and> (\<forall>i j si sj. run_iter G \<theta> i (initial_state origin s0) = Inr si \<longrightarrow>
              run_iter G \<theta> j si = Inr sj \<longrightarrow> entries_le (propagated si) (propagated sj))
       \<and> (\<forall>i si m. run_iter G \<theta> i (initial_state origin s0) = Inr si \<longrightarrow>
              propagate_risk G origin s0 \<theta> = Some (Inr m) \<longrightarrow> entries_le (propagated si) m)"
proof (intro conjI allI impI)
  fix m k v
  assume h: "0 \<le> s0 \<and> attenuating_from G origin"
    and pr: "propagate_risk G origin s0 \<theta> = Some (Inr m)" and mk: "m k = Some v"
  have "\<forall>k v. m k = Some v \<longrightarrow> v \<le> s0"
  proof (rule result_map_invariant [OF pr, where J = "\<lambda>p. \<forall>k v. p k = Some v \<longrightarrow> v \<le> s0"])
    show "\<forall>k v. [origin \<mapsto> s0] k = Some v \<longrightarrow> v \<le> s0" by (simp split: if_splits)
  next
    fix p :: "string \<rightharpoonup> rat" and u s ses w e nd
    assume p: "\<forall>k v. p k = Some v \<longrightarrow> v \<le> s0" and ps: "path_score G origin s0 \<theta> u s"
      and su: "successors G u = Inr ses" and mem: "(w, e) \<in> set ses"
      and nd: "map_of (nodes G) w = Some nd" and th: "\<theta> < propagated_score s e nd"
    have "path_score G origin s0 \<theta> w (propagated_score s e nd)"
      by (rule path_score.step [OF ps su mem nd th])
    from path_score_bounded [OF _ _ this] h have "propagated_score s e nd \<le> s0" by simp
    then have "py_round 2 (propagated_score s e nd) \<le> py_round 2 s0" by (rule py_round_mono)
    then have "py_round 2 (propagated_score s e nd) \<le> s0" using rd by simp
    then show "\<forall>k v. (p(w \<mapsto> py_round 2 (propagated_score s e nd))) k = Some v \<longrightarrow> v \<le> s0"
      using p by simp
  qed
  then show "v \<le> s0" using mk by blast
next
  fix i j si sj
  assume a: "run_iter G \<theta> i (initial_state origin s0) = Inr si" and b: "run_iter G \<theta> j si = Inr sj"
  have "rounded (propagated (initial_state origin s0))"
    using rd by (simp add: rounded_def initial_state_def)
  from run_iter_growing [OF a this] have "rounded (propagated si)" by simp
  from run_iter_growing [OF b this] show "entries_le (propagated si) (propagated sj)" by simp
next
  fix i si m
  assume a: "run_iter G \<theta> i (initial_state origin s0) = Inr si"
    and pr: "propagate_risk G origin s0 \<theta> = Some (Inr m)"
  have "rounded (propagated (initial_state origin s0))"
    using rd by (simp add: rounded_def initial_state_def)
  from run_iter_growing [OF a this] have rs: "rounded (propagated si)" by simp
  have "bfs_loop G \<theta> si = Some (Inr m)"
    using run_iter_bfs_loop [OF a] propagate_risk_bfs_loop [OF pr] by simp
  from bfs_loop_run_iter [OF this] obtain n s where
    run: "run_iter G \<theta> n si = Inr s" and m: "propagated s = m" by blast
  from run_iter_growing [OF run rs] m show "entries_le (propagated si) m" by simp
qed

lemma scenario_E_attenuating_from_S1: "attenuating_from scenario_E ''S1''"
  unfolding attenuating_from_def
proof (intro allI impI)
  fix u ses v e nd
  assume r: "(''S1'', u) \<in> (edge_rel scenario_E)\<^sup>*" and su: "successors scenario_E u = Inr ses"
    and mem: "(v, e) \<in> set ses" and nd: "map_of (nodes scenario_E) v = Some nd"
  from scenario_E_reach_S1 [OF r] su mem nd
  show "0 \<le> propagated_score 1 e nd \<and> propagated_score 1 e nd \<le> 1"
    by (auto simp: successors_def scenario_E_def propagated_score_def dep_weight_def
        vulnerability_def)
qed

lemma scenario_E_first_iteration:
  "run_iter scenario_E 1 (Suc 0) (initial_state ''S1'' 8) =
     Inr \<lparr>propagated = [''S1'' \<mapsto> 8, ''C'' \<mapsto> 24 / 5], queue = [(''C'', 24 / 5)],
          visited = {''S1''}\<rparr>"
  by (simp add: scenario_E_def initial_state_def loop_body_def successors_def relax_def
      propagated_score_def dep_weight_def vulnerability_def Let_def py_round_def
      round_half_even_def)

theorem C5_propagation_bounds_witness:
  "py_round 2 8 = 8 \<and> (0 :: rat) \<le> 8 \<and> attenuating_from scenario_E ''S1''
   \<and> propagate_risk scenario_E ''S1'' 8 1 = Some (Inr [''S1'' \<mapsto> 8, ''C'' \<mapsto> 24 / 5])
   \<and> (24 / 5 :: rat) \<le> 8
   \<and> run_iter scenario_E 1 0 (initial_state ''S1'' 8) = Inr (initial_state ''S1'' 8)
   \<and> entries_le (propagated (initial_state ''S1'' 8)) [''S1'' \<mapsto> 8, ''C'' \<mapsto> 24 / 5]"
proof -
  have rd: "py_round 2 8 = 8"
    by (simp add: py_round_def round_half_even_def)
  have r0: "run_iter scenario_E 1 0 (initial_state ''S1'' 8) = Inr (initial_state ''S1'' 8)"
    by simp
  note inst = C5_propagation_bounds [OF rd, of scenario_E "''S1''" 1]
  have c: "[''S1'' \<mapsto> 8, ''C'' \<mapsto> (24 / 5 :: rat)] ''C'' = Some (24 / 5)" by simp
  from inst scenario_E_attenuating_from_S1 scenario_E_from_S1_result c
  have "(24 / 5 :: rat) \<le> 8" by simp
  moreover from inst r0 scenario_E_first_iteration
  have "entries_le (propagated (initial_state ''S1'' 8)) [''S1'' \<mapsto> 8, ''C'' \<mapsto> 24 / 5]"
    by (metis pstate.select_convs(1))
  ultimately show ?thesis
    using rd scenario_E_attenuating_from_S1 scenario_E_from_S1_result r0 by simp
qed

subsection \<open>Alternate suppliers\<close>

lemma sort_reverse_sorted: "sorted_wrt (\<lambda>a b. key a \<ge> key b) (sort_reverse key xs)"
proof -
  have "sorted (map key (sort_key key (rev xs)))" by (rule sorted_sort_key)
  then have "sorted_wrt (\<lambda>a b. key a \<le> key b) (sort_key key (rev xs))"
    by (simp add: sorted_map)
  then show ?thesis by (simp add: sort_reverse_def sorted_wrt_rev)
qed

lemma sort_reverse_stable:
  "filter (\<lambda>a. key a = k) (sort_reverse key xs) = filter (\<lambda>a. key a = k) xs"
proof -
  have "filter (\<lambda>a. key a = k) (sort_reverse key xs)
      = rev (filter (\<lambda>a. key a = k) (sort_key key (rev xs)))"
    by (simp add: sort_reverse_def rev_filter)
  also have "\<dots> = rev (filter (\<lambda>a. key a = k) (rev xs))"
    by (simp only: sort_key_stable)
  also have "\<dots> = filter (\<lambda>a. key a = k) xs"
    by (simp add: rev_filter)
  finally show ?thesis .
qed

lemma slice_to_prefix: "prefix (slice_to xs n) xs"
  by (simp add: slice_to_def take_is_prefix)

lemma slice_to_length: "0 \<le> n \<Longrightarrow> length (slice_to xs n) \<le> nat n"
  by (simp add: slice_to_def)

lemma slice_to_length_neg: "n < 0 \<Longrightarrow> length (slice_to xs n) = length xs - nat (- n)"
  by (simp add: slice_to_def)

lemma length_sort_reverse: "length (sort_reverse key xs) = length xs"
  by (simp add: sort_reverse_def)

lemma slice_to_sorted: "sorted_wrt P xs \<Longrightarrow> sorted_wrt P (slice_to xs n)"
  by (simp add: slice_to_def sorted_wrt_take)

lemma find_alternates_shape:
  assumes "find_alternates i db n = Inr r"
  shows "r = [] \<or> r = slice_to (sort_reverse alt_score (scored_candidates i db)) n"
  using assms
  by (auto simp: find_alternates_def scored_candidates_def Let_def
      split: option.splits list.splits if_splits)

text \<open>
  Claim C7, as stated, fails in its tie-break: the sort key is the score alone. Two
  candidates with the same score 8.25, the first in the catalog with a lead time of 12
  weeks and the second with 4 weeks, are returned in the order of the catalog.
\<close>

theorem C7_tiebreak_counterexample:
  "ranking (find_alternates ''sup-1''
        (catalog [candidate_doc ''alt-1'' ''Ras Gas'' 12 75,
                  candidate_doc ''alt-2'' ''Doha LPG'' 4 50]) 5)
   = [(''Ras Gas'', 33 / 4, 12), (''Doha LPG'', 33 / 4, 4)]"
  by code_simp

text \<open>
  Claim C7, amended. The list returned by \<open>find_alternates\<close> is sorted non-increasing by
  score. For a non-negative \<open>max_results\<close> (5 by default) it has at most \<open>max_results\<close>
  entries; for a negative \<open>max_results\<close> the slice drops entries from the end instead, and
  the list has at most the number of scored candidates minus \<open>|max_results|\<close> entries.
  Candidates with equal scores keep the order in which the query returned them: for each
  score, the entries with that score are an initial segment of the scored candidates with
  that score.
\<close>

theorem C7_sorted_stable_top:
  assumes "find_alternates i db n = Inr r"
  shows "sorted_wrt (\<lambda>a b. alt_score a \<ge> alt_score b) r
       \<and> (0 \<le> n \<longrightarrow> length r \<le> nat n)
       \<and> (n < 0 \<longrightarrow> length r \<le> length (scored_candidates i db) - nat (- n))
       \<and> (\<forall>k. prefix (filter (\<lambda>a. alt_score a = k) r)
                     (filter (\<lambda>a. alt_score a = k) (scored_candidates i db)))"
proof -
  from find_alternates_shape [OF assms] show ?thesis
  proof
    assume "r = []"
    then show ?thesis by simp
  next
    let ?sorted = "sort_reverse alt_score (scored_candidates i db)"
    assume r: "r = slice_to ?sorted n"
    have "prefix (filter (\<lambda>a. alt_score a = k) r)
            (filter (\<lambda>a. alt_score a = k) (scored_candidates i db))" for k
      using filter_mono_prefix [OF slice_to_prefix, of "\<lambda>a. alt_score a = k" ?sorted n]
      by (simp add: r sort_reverse_stable)
    moreover have "n < 0 \<longrightarrow> length r \<le> length (scored_candidates i db) - nat (- n)"
      by (simp add: r slice_to_length_neg length_sort_reverse)
    ultimately show ?thesis
      using slice_to_length [of n ?sorted] slice_to_sorted [OF sort_reverse_sorted]
      by (simp add: r)
  qed
qed

lemma two_candidates_returns:
  "case find_alternates ''sup-1''
        (catalog [candidate_doc ''alt-1'' ''Ras Gas'' 12 75,
                  candidate_doc ''alt-2'' ''Doha LPG'' 4 50]) 5 of
     Inl e \<Rightarrow> False | Inr r \<Rightarrow> length r = 2"
  by code_simp

lemma two_candidates_negative_returns:
  "(case find_alternates ''sup-1''
        (catalog [candidate_doc ''alt-1'' ''Ras Gas'' 12 75,
                  candidate_doc ''alt-2'' ''Doha LPG'' 4 50]) (- 1) of
     Inl e \<Rightarrow> False | Inr r \<Rightarrow> length r = 1)
   \<and> length (scored_candidates ''sup-1''
        (catalog [candidate_doc ''alt-1'' ''Ras Gas'' 12 75,
                  candidate_doc ''alt-2'' ''Doha LPG'' 4 50])) = 2"
  by code_simp

theorem C7_sorted_stable_top_witness:
  "(\<exists>r. find_alternates ''sup-1''
        (catalog [candidate_doc ''alt-1'' ''Ras Gas'' 12 75,
                  candidate_doc ''alt-2'' ''Doha LPG'' 4 50]) 5 = Inr r
     \<and> (0 :: int) \<le> 5 \<and> length r = 2 \<and> length r \<le> nat 5
     \<and> sorted_wrt (\<lambda>a b. alt_score a \<ge> alt_score b) r)
   \<and> (\<exists>r. find_alternates ''sup-1''
        (catalog [candidate_doc ''alt-1'' ''Ras Gas'' 12 75,
                  candidate_doc ''alt-2'' ''Doha LPG'' 4 50]) (- 1) = Inr r
     \<and> (- 1 :: int) < 0 \<and> length r = 1 \<and> length r \<le> 2 - nat (- (- 1))
     \<and> sorted_wrt (\<lambda>a b. alt_score a \<ge> alt_score b) r)"
proof -
  let ?db = "catalog [candidate_doc ''alt-1'' ''Ras Gas'' 12 75,
                      candidate_doc ''alt-2'' ''Doha LPG'' 4 50]"
  from two_candidates_returns obtain r where
    r: "find_alternates ''sup-1'' ?db 5 = Inr r" and l: "length r = 2"
    by (cases "find_alternates ''sup-1'' ?db 5") auto
  from two_candidates_negative_returns obtain r' where
    r': "find_alternates ''sup-1'' ?db (- 1) = Inr r'" and l': "length r' = 1"
    and n: "length (scored_candidates ''sup-1'' ?db) = 2"
    by (cases "find_alternates ''sup-1'' ?db (- 1)") auto
  from C7_sorted_stable_top [OF r] r l
  have first: "\<exists>r. find_alternates ''sup-1'' ?db 5 = Inr r
     \<and> (0 :: int) \<le> 5 \<and> length r = 2 \<and> length r \<le> nat 5
     \<and> sorted_wrt (\<lambda>a b. alt_score a \<ge> alt_score b) r"
    by simp
  from C7_sorted_stable_top [OF r'] r' l' n
  have "\<exists>r. find_alternates ''sup-1'' ?db (- 1) = Inr r
     \<and> (- 1 :: int) < 0 \<and> length r = 1 \<and> length r \<le> 2 - nat (- (- 1))
     \<and> sorted_wrt (\<lambda>a b. alt_score a \<ge> alt_score b) r"
    by simp
  with first show ?thesis by blast
qed

subsection \<open>Alerts\<close>

lemma should_create_alert_iff:
  "should_create_alert st ev \<longleftrightarrow>
     alert_threshold_score st \<le> event_score ev \<and> event_nodes ev \<noteq> []"
  by (auto simp: should_create_alert_def Let_def)

lemma build_alert_company:
  "build_alert st ev db client = Inr a \<Longrightarrow>
   find (\<lambda>c. c_id c = (case re_company_id ev of None \<Rightarrow> settings_company_id st | Some c \<Rightarrow> c))
     (db_companies db) \<noteq> None"
  by (auto simp: build_alert_def Let_def split: option.splits)

lemma build_alert_simple:
  assumes "find (\<lambda>c. c_id c = (case re_company_id ev of None \<Rightarrow> settings_company_id st | Some c \<Rightarrow> c))
              (db_companies db) \<noteq> None"
    and "find (\<lambda>s. s_name s = Some (case event_nodes ev of [] \<Rightarrow> ''Unknown'' | n # _ \<Rightarrow> n)
               \<and> s_company_id s = Some (case re_company_id ev of
                     None \<Rightarrow> settings_company_id st | Some c \<Rightarrow> c)) (db_suppliers db) = None"
    and "re_id ev \<noteq> None" "re_severity_band ev \<noteq> None" "re_risk_score ev \<noteq> None"
  shows "\<exists>a. build_alert st ev db client = Inr a"
  using assms
  by (auto simp: build_alert_def Let_def split: option.splits)

text \<open>
  Claim C2, as stated, fails in its "if" direction: a risk event with score 14.25, above
  the threshold 3.0, and one affected node gets no alert when its company document is not
  in the database; \<open>create_alert\<close> returns \<open>None\<close> and leaves the database as it was.
\<close>

theorem C2_alert_gating_counterexample:
  "should_create_alert default_settings scored_event
   \<and> create_alert default_settings scored_event ((catalog [])\<lparr>db_companies := []\<rparr>) None
         ''alert-1''
     = (None, (catalog [])\<lparr>db_companies := []\<rparr>)"
  by (simp add: create_alert_def build_alert_def should_create_alert_iff event_score_def
      event_nodes_def scored_event_def scenario_event_def default_settings_def catalog_def)

text \<open>
  Claim C2, amended. \<open>create_alert\<close> writes an alert only if the risk score is at least
  the threshold and the list of affected nodes is not empty; when either condition fails
  it returns \<open>None\<close> and inserts nothing. When both hold, exactly one alert is appended
  and its id returned, provided that the company document is found and building the alert
  raises no exception; otherwise \<open>create_alert\<close> returns \<open>None\<close> and the database is
  unchanged. Building the alert succeeds in particular when the company is found, the
  primary supplier is not in the catalog and the event has its id, band and score.
\<close>

theorem C2_alert_gating:
  assumes "create_alert st ev db client oid = (r, db')"
  shows "(r \<noteq> None \<longrightarrow> alert_threshold_score st \<le> event_score ev \<and> event_nodes ev \<noteq> []
            \<and> r = Some oid \<and> (\<exists>a. db' = db\<lparr>db_alerts := db_alerts db @ [a]\<rparr>))
       \<and> (r = None \<longrightarrow> db' = db)
       \<and> (\<not> (alert_threshold_score st \<le> event_score ev \<and> event_nodes ev \<noteq> []) \<longrightarrow> r = None)
       \<and> (r \<noteq> None \<longleftrightarrow> alert_threshold_score st \<le> event_score ev \<and> event_nodes ev \<noteq> []
            \<and> (\<exists>a. build_alert st ev db client = Inr a))
       \<and> (find (\<lambda>c. c_id c = (case re_company_id ev of
                    None \<Rightarrow> settings_company_id st | Some c \<Rightarrow> c)) (db_companies db) = None
            \<longrightarrow> r = None)
       \<and> (alert_threshold_score st \<le> event_score ev \<and> event_nodes ev \<noteq> []
            \<and> find (\<lambda>c. c_id c = (case re_company_id ev of
                    None \<Rightarrow> settings_company_id st | Some c \<Rightarrow> c)) (db_companies db) \<noteq> None
            \<and> find (\<lambda>s. s_name s = Some (case event_nodes ev of [] \<Rightarrow> ''Unknown'' | n # _ \<Rightarrow> n)
                 \<and> s_company_id s = Some (case re_company_id ev of
                     None \<Rightarrow> settings_company_id st | Some c \<Rightarrow> c)) (db_suppliers db) = None
            \<and> re_id ev \<noteq> None \<and> re_severity_band ev \<noteq> None \<and> re_risk_score ev \<noteq> None
            \<longrightarrow> r = Some oid)"
proof -
  have main: "(r \<noteq> None \<longrightarrow> alert_threshold_score st \<le> event_score ev \<and> event_nodes ev \<noteq> []
            \<and> r = Some oid \<and> (\<exists>a. db' = db\<lparr>db_alerts := db_alerts db @ [a]\<rparr>))
       \<and> (r = None \<longrightarrow> db' = db)
       \<and> (\<not> (alert_threshold_score st \<le> event_score ev \<and> event_nodes ev \<noteq> []) \<longrightarrow> r = None)
       \<and> (r \<noteq> None \<longleftrightarrow> alert_threshold_score st \<le> event_score ev \<and> event_nodes ev \<noteq> []
            \<and> (\<exists>a. build_alert st ev db client = Inr a))"
    using assms
    by (auto simp: create_alert_def should_create_alert_iff split: if_splits sum.splits)
  then have iff: "r \<noteq> None \<longleftrightarrow> alert_threshold_score st \<le> event_score ev
      \<and> event_nodes ev \<noteq> [] \<and> (\<exists>a. build_alert st ev db client = Inr a)"
    by blast
  have nocomp: "r = None"
    if "find (\<lambda>c. c_id c = (case re_company_id ev of
                    None \<Rightarrow> settings_company_id st | Some c \<Rightarrow> c)) (db_companies db) = None"
    using iff build_alert_company [of st ev db client] that by blast
  have suff: "r = Some oid"
    if "alert_threshold_score st \<le> event_score ev \<and> event_nodes ev \<noteq> []
            \<and> find (\<lambda>c. c_id c = (case re_company_id ev of
                    None \<Rightarrow> settings_company_id st | Some c \<Rightarrow> c)) (db_companies db) \<noteq> None
            \<and> find (\<lambda>s. s_name s = Some (case event_nodes ev of [] \<Rightarrow> ''Unknown'' | n # _ \<Rightarrow> n)
                 \<and> s_company_id s = Some (case re_company_id ev of
                     None \<Rightarrow> settings_company_id st | Some c \<Rightarrow> c)) (db_suppliers db) = None
            \<and> re_id ev \<noteq> None \<and> re_severity_band ev \<noteq> None \<and> re_risk_score ev \<noteq> None"
  proof -
    from that have "\<exists>a. build_alert st ev db client = Inr a"
      by (intro build_alert_simple) simp_all
    with that iff have "r \<noteq> None" by blast
    with main show ?thesis by blast
  qed
  from main nocomp suff show ?thesis by blast
qed

lemma alert_created_value:
  "fst (create_alert default_settings scored_event
        (catalog [candidate_doc ''alt-1'' ''Ras Gas'' 12 75]) None ''alert-1'') = Some ''alert-1''"
  by code_simp

theorem C2_alert_gating_witness:
  "fst (create_alert default_settings scored_event
        (catalog [candidate_doc ''alt-1'' ''Ras Gas'' 12 75]) None ''alert-1'') = Some ''alert-1''
   \<and> alert_threshold_score default_settings \<le> event_score scored_event
   \<and> event_nodes scored_event \<noteq> []
   \<and> length (db_alerts (snd (create_alert default_settings scored_event
        (catalog [candidate_doc ''alt-1'' ''Ras Gas'' 12 75]) None ''alert-1''))) = 1"
proof -
  let ?db = "catalog [candidate_doc ''alt-1'' ''Ras Gas'' 12 75]"
  let ?res = "create_alert default_settings scored_event ?db None ''alert-1''"
  have "?res = (fst ?res, snd ?res)" by simp
  from C2_alert_gating [OF this] alert_created_value
  have g: "alert_threshold_score default_settings \<le> event_score scored_event
      \<and> event_nodes scored_event \<noteq> []"
    and "\<exists>a. snd ?res = ?db\<lparr>db_alerts := db_alerts ?db @ [a]\<rparr>"
    by simp_all
  then obtain a where "snd ?res = ?db\<lparr>db_alerts := db_alerts ?db @ [a]\<rparr>" by blast
  then have "length (db_alerts (snd ?res)) = 1" by (simp add: catalog_def)
  with g alert_created_value show ?thesis by simp
qed

subsection \<open>Fingerprints\<close>

lemma lower_char_idem: "lower_char (lower_char c) = lower_char c"
  by (auto simp: lower_char_def Let_def)

lemma lower_upper_char: "lower_char (upper_char c) = lower_char c"
  by (auto simp: lower_char_def upper_char_def Let_def)

lemma is_space_lower: "is_space (lower_char c) = is_space c"
  by (auto simp: lower_char_def is_space_def Let_def)

lemma is_space_upper: "is_space (upper_char c) = is_space c"
  by (auto simp: upper_char_def is_space_def Let_def)

lemma lower_idem: "lower (lower s) = lower s"
  by (simp add: lower_def lower_char_idem)

lemma lower_upper: "lower (upper s) = lower s"
  by (simp add: lower_def upper_def lower_upper_char)

lemma rstrip_keeps_head:
  "\<not> P x \<Longrightarrow> \<exists>ys. rev (dropWhile P (rev (x # xs))) = x # ys"
proof (cases "\<forall>y \<in> set (rev xs). P y")
  case True
  assume "\<not> P x"
  with True show ?thesis by (simp add: dropWhile_append)
next
  case False
  then have "rev (dropWhile P (rev (x # xs))) = x # rev (dropWhile P (rev xs))"
    by (simp add: dropWhile_append)
  then show ?thesis by blast
qed

lemma lstrip_rstrip:
  assumes "dropWhile P t = t"
  shows "dropWhile P (rev (dropWhile P (rev t))) = rev (dropWhile P (rev t))"
proof (cases t)
  case Nil
  then show ?thesis by simp
next
  case (Cons x xs)
  have "\<not> P x"
  proof
    assume "P x"
    then have "dropWhile P xs = x # xs" using assms Cons by simp
    then have "length (dropWhile P xs) = Suc (length xs)" by simp
    then show False using length_dropWhile_le [of P xs] by simp
  qed
  from rstrip_keeps_head [of P x xs] this obtain ys where
    "rev (dropWhile P (rev (x # xs))) = x # ys" by blast
  then show ?thesis using Cons \<open>\<not> P x\<close> by simp
qed

lemma strip_idem: "strip (strip s) = strip s"
proof -
  let ?t = "dropWhile is_space s"
  have "dropWhile is_space ?t = ?t" by simp
  from lstrip_rstrip [OF this]
  have "dropWhile is_space (strip s) = strip s" by (simp add: strip_def)
  then have "strip (strip s) = rev (dropWhile is_space (rev (strip s)))"
    by (simp add: strip_def)
  also have "\<dots> = strip s" by (simp add: strip_def)
  finally show ?thesis .
qed

lemma strip_map:
  assumes "\<And>c. is_space (f c) = is_space c"
  shows "strip (map f s) = map f (strip s)"
proof -
  have "is_space \<circ> f = is_space" using assms by (simp add: fun_eq_iff)
  then show ?thesis by (simp add: strip_def dropWhile_map rev_map)
qed

lemma strip_lower: "strip (lower s) = lower (strip s)"
  unfolding lower_def by (rule strip_map) (rule is_space_lower)

lemma length_strip: "length (strip s) \<le> length s"
proof -
  have "length (strip s) \<le> length (dropWhile is_space s)"
    unfolding strip_def using length_dropWhile_le [of is_space "rev (dropWhile is_space s)"]
    by simp
  then show ?thesis using length_dropWhile_le [of is_space s] by linarith
qed

lemma strip_Nil: "strip [] = []"
  by (simp add: strip_def)

lemma content_headline:
  "strip (lower h') = strip (lower h) \<Longrightarrow>
   fingerprint_content (a\<lparr>headline := Some h'\<rparr>) = fingerprint_content (a\<lparr>headline := Some h\<rparr>)"
  by (simp add: fingerprint_content_def)

lemma content_body:
  "(b' = [] \<longleftrightarrow> b = []) \<Longrightarrow> strip (lower (take 100 b')) = strip (lower (take 100 b)) \<Longrightarrow>
   fingerprint_content (a\<lparr>body := Some b'\<rparr>) = fingerprint_content (a\<lparr>body := Some b\<rparr>)"
  by (simp add: fingerprint_content_def Let_def)

text \<open>
  Claim C6, as stated, fails twice. For an article with an empty body the code hashes the
  headline alone, where the formula of the claim has a trailing space. And the body is
  stripped after it is cut to 100 characters: a body of one space followed by 100 letters
  contributes 99 letters, the same body trimmed contributes 100.
\<close>

theorem C6_fingerprint_counterexample:
  "fingerprint_content (news_article ''Port Strike'' []) = ''port strike''
   \<and> spec_content (news_article ''Port Strike'' []) = ''port strike ''
   \<and> fingerprint_content (news_article ''Port Strike'' (CHR '' '' # replicate 100 (CHR ''x'')))
       = ''port strike '' @ replicate 99 (CHR ''x'')
   \<and> fingerprint_content
         (news_article ''Port Strike'' (strip (CHR '' '' # replicate 100 (CHR ''x''))))
       = ''port strike '' @ replicate 100 (CHR ''x'')"
  by code_simp

text \<open>
  Claim C6, amended (ASCII text). The fingerprint is the 128-bit hash of the headline in
  lower case and stripped, followed, when the body is not empty, by a space and the first
  100 characters of the body in lower case and stripped. It is invariant under whitespace
  trim and case change of the headline, under case change of the body, and under
  whitespace trim of a body of at most 100 characters that is not all whitespace.
\<close>

theorem C6_fingerprint:
  "generate_fingerprint hashfn a =
     hashfn (strip (lower (case headline a of None \<Rightarrow> [] | Some h \<Rightarrow> h)) @
          (case body a of
             None \<Rightarrow> []
           | Some b \<Rightarrow> if b \<noteq> [] then '' '' @ strip (lower (take 100 b)) else []))
   \<and> generate_fingerprint hashfn (a\<lparr>headline := Some (strip h)\<rparr>)
       = generate_fingerprint hashfn (a\<lparr>headline := Some h\<rparr>)
   \<and> (lower h' = lower h \<longrightarrow>
        generate_fingerprint hashfn (a\<lparr>headline := Some h'\<rparr>)
        = generate_fingerprint hashfn (a\<lparr>headline := Some h\<rparr>))
   \<and> (lower b' = lower b \<longrightarrow>
        generate_fingerprint hashfn (a\<lparr>body := Some b'\<rparr>)
        = generate_fingerprint hashfn (a\<lparr>body := Some b\<rparr>))
   \<and> (length b \<le> 100 \<and> strip b \<noteq> [] \<longrightarrow>
        generate_fingerprint hashfn (a\<lparr>body := Some (strip b)\<rparr>)
        = generate_fingerprint hashfn (a\<lparr>body := Some b\<rparr>))"
proof (intro conjI impI)
  show "generate_fingerprint hashfn a =
     hashfn (strip (lower (case headline a of None \<Rightarrow> [] | Some h \<Rightarrow> h)) @
          (case body a of
             None \<Rightarrow> []
           | Some b \<Rightarrow> if b \<noteq> [] then '' '' @ strip (lower (take 100 b)) else []))"
    by (simp add: generate_fingerprint_def fingerprint_content_def Let_def split: option.splits)
next
  have "strip (lower (strip h)) = strip (lower h)"
    by (simp add: strip_lower strip_idem)
  from content_headline [OF this] show "generate_fingerprint hashfn (a\<lparr>headline := Some (strip h)\<rparr>)
       = generate_fingerprint hashfn (a\<lparr>headline := Some h\<rparr>)"
    by (simp add: generate_fingerprint_def)
next
  assume "lower h' = lower h"
  then have "strip (lower h') = strip (lower h)" by simp
  from content_headline [OF this] show "generate_fingerprint hashfn (a\<lparr>headline := Some h'\<rparr>)
        = generate_fingerprint hashfn (a\<lparr>headline := Some h\<rparr>)"
    by (simp add: generate_fingerprint_def)
next
  assume eq: "lower b' = lower b"
  then have e: "b' = [] \<longleftrightarrow> b = []" by (metis lower_def map_is_Nil_conv)
  have "lower (take 100 b') = lower (take 100 b)"
    using eq by (simp add: lower_def take_map [symmetric])
  then have "strip (lower (take 100 b')) = strip (lower (take 100 b))" by simp
  from content_body [OF e this] show "generate_fingerprint hashfn (a\<lparr>body := Some b'\<rparr>)
        = generate_fingerprint hashfn (a\<lparr>body := Some b\<rparr>)"
    by (simp add: generate_fingerprint_def)
next
  assume h: "length b \<le> 100 \<and> strip b \<noteq> []"
  then have ne: "b \<noteq> []" using strip_Nil by auto
  have t1: "take 100 b = b" using h by simp
  have t2: "take 100 (strip b) = strip b"
    using h length_strip [of b] by simp
  have "strip (lower (take 100 (strip b))) = strip (lower (take 100 b))"
    by (simp add: t1 t2 strip_lower strip_idem)
  moreover have "strip b = [] \<longleftrightarrow> b = []" using h ne by simp
  ultimately show "generate_fingerprint hashfn (a\<lparr>body := Some (strip b)\<rparr>)
        = generate_fingerprint hashfn (a\<lparr>body := Some b\<rparr>)"
    using content_body [of "strip b" b a] by (simp add: generate_fingerprint_def)
qed

theorem C6_fingerprint_witness:
  "\<forall>hashfn. generate_fingerprint hashfn (news_article ''PORT STRIKE'' ''  Dock Workers '')
        = generate_fingerprint hashfn (news_article ''Port Strike'' ''dock workers'')"
proof
  fix hashfn :: "string \<Rightarrow> 128 word"
  let ?a = "news_article ''Port Strike'' ''dock workers''"
  have upd: "news_article h b = ?a\<lparr>headline := Some h, body := Some b\<rparr>" for h b
    by (simp add: news_article_def)
  have h: "lower ''PORT STRIKE'' = lower ''Port Strike''" by code_simp
  have b: "lower ''  Dock Workers '' = lower ''  dock workers ''" by code_simp
  have s: "strip ''  dock workers '' = ''dock workers''" by code_simp
  have l: "length ''  dock workers '' \<le> 100 \<and> strip ''  dock workers '' \<noteq> []"
    by (simp add: s)
  note inst = C6_fingerprint [where hashfn = hashfn and h = "''Port Strike''"
      and h' = "''PORT STRIKE''" and b = "''  dock workers ''" and b' = "''  Dock Workers ''"]
  have "generate_fingerprint hashfn (news_article ''PORT STRIKE'' ''  Dock Workers '')
      = generate_fingerprint hashfn (?a\<lparr>body := Some ''  Dock Workers '', headline := Some ''PORT STRIKE''\<rparr>)"
    by (simp add: news_article_def)
  also have "\<dots> = generate_fingerprint hashfn
      (?a\<lparr>body := Some ''  Dock Workers '', headline := Some ''Port Strike''\<rparr>)"
    using inst [where a = "?a\<lparr>body := Some ''  Dock Workers ''\<rparr>"] h by simp
  also have "\<dots> = generate_fingerprint hashfn (?a\<lparr>body := Some ''  Dock Workers ''\<rparr>)"
    by (simp add: news_article_def)
  also have "\<dots> = generate_fingerprint hashfn (?a\<lparr>body := Some ''  dock workers ''\<rparr>)"
    using inst [where a = ?a] b by simp
  also have "\<dots> = generate_fingerprint hashfn (?a\<lparr>body := Some (strip ''  dock workers '')\<rparr>)"
    using inst [where a = ?a] l by simp
  also have "\<dots> = generate_fingerprint hashfn ?a"
    by (simp add: s news_article_def)
  finally show "generate_fingerprint hashfn (news_article ''PORT STRIKE'' ''  Dock Workers '')
        = generate_fingerprint hashfn ?a" .
qed

subsection \<open>Risk extraction worker\<close>

lemma length_update_one: "length (update_one P f ds) = length ds"
  by (induction ds) auto

lemma update_one_no_match: "\<forall>d \<in> set ds. \<not> P d \<Longrightarrow> update_one P f ds = ds"
  by (induction ds) auto

lemma not_risk_effect:
  assumes "relevance = Inr (True, sc)" and "extraction = Inr (Some rd)"
    and "is_risk rd = Some False"
  shows "extraction_handler cp relevance extraction oid art w =
     w\<lparr>store := (store w)\<lparr>db_articles :=
          update_one (\<lambda>d. event_id d = event_id art)
            (\<lambda>d. d\<lparr>processed := Some True, risk_extracted := Some False\<rparr>)
            (db_articles (store w))\<rparr>\<rparr>"
  using assms by (simp add: extraction_handler_def empty_dict_def truthy_def)

text \<open>
  When the language model answers \<open>is_risk = false\<close> for a relevant article, the handler
  creates no risk event and no alert and pushes nothing; it marks the article as
  processed only if a document with its \<open>event_id\<close> is already in the collection, and
  writes nothing otherwise.
\<close>

lemma not_risk_frame:
  assumes "relevance = Inr (True, sc)" and "extraction = Inr (Some rd)"
    and "is_risk rd = Some False"
  shows "db_risk_events (store (extraction_handler cp relevance extraction oid art w))
           = db_risk_events (store w)
       \<and> db_alerts (store (extraction_handler cp relevance extraction oid art w))
           = db_alerts (store w)
       \<and> risk_entities (extraction_handler cp relevance extraction oid art w) = risk_entities w
       \<and> length (db_articles (store (extraction_handler cp relevance extraction oid art w)))
           = length (db_articles (store w))
       \<and> ((\<forall>d \<in> set (db_articles (store w)). event_id d \<noteq> event_id art) \<longrightarrow>
            extraction_handler cp relevance extraction oid art w = w)"
  unfolding not_risk_effect [OF assms]
  by (simp add: length_update_one update_one_no_match)

text \<open>
  Claim C8 at the input the pipeline delivers: a fresh article, which no stage has stored
  yet, judged relevant and answered with \<open>is_risk = false\<close>. The handler leaves the
  state as it was: the articles collection is still empty, so no article marked
  \<open>processed = true\<close> is persisted.
\<close>

theorem C8_article_not_persisted:
  "extraction_handler (scenario_company 10) (Inr (True, 1 / 2)) (Inr (Some not_a_risk))
     ''re-1'' (news_article ''Port Strike Ends'' ''Dock workers return'') fresh_pipeline
   = fresh_pipeline
   \<and> db_articles (store fresh_pipeline) = []"
  by (simp add: extraction_handler_def empty_dict_def truthy_def not_a_risk_def
      fresh_pipeline_def catalog_def)

end
